theory Spec2Isabelle
  imports Complex_Main "HOL-Library.AList"
begin

section \<open>JavaScript values and strings\<close>

text \<open>
  The values that occur in the handlers of \<^verbatim>\<open>src/routes/user.routes.js\<close> when they read the
  module-level object \<^verbatim>\<open>otpStore\<close> and the fields of a request body: \<^verbatim>\<open>undefined\<close> (a key or a
  form field that is absent), a string, and the built-in functions and objects that every
  object literal inherits from \<^verbatim>\<open>Object.prototype\<close> (identified by the property name under
  which they are reached).
\<close>

datatype jsval = JUndefined | JString string | JBuiltin string

text \<open>JavaScript truthiness: \<^verbatim>\<open>undefined\<close> and the empty string are falsy, objects are truthy.\<close>

fun truthy :: "jsval \<Rightarrow> bool" where
  "truthy JUndefined = False"
| "truthy (JString s) = (s \<noteq> [])"
| "truthy (JBuiltin _) = True"

text \<open>
  Strict inequality \<^verbatim>\<open>!==\<close>: no coercion; strings compare by content, \<^verbatim>\<open>undefined\<close> equals only
  itself, objects compare by identity.
\<close>

definition strict_neq :: "jsval \<Rightarrow> jsval \<Rightarrow> bool" where
  "strict_neq a b = (a \<noteq> b)"

text \<open>
  ASCII white space removed by \<^verbatim>\<open>String.prototype.trim\<close>, and ASCII lower-casing as done by
  \<^verbatim>\<open>toLowerCase\<close>. Strings are modelled as lists of 8-bit characters, and the two functions are
  those of JavaScript on ASCII strings only: JavaScript also strips white space beyond ASCII
  (such as U+00A0) and lower-cases letters beyond ASCII (such as U+00C9), which the model
  leaves alone.
\<close>

definition is_space :: "char \<Rightarrow> bool" where
  "is_space c = (c \<in> set [CHR '' '', CHR 0x09, CHR 0x0A, CHR 0x0B, CHR 0x0C, CHR 0x0D])"

definition trim :: "string \<Rightarrow> string" where
  "trim s = rev (dropWhile is_space (rev (dropWhile is_space s)))"

definition lower_char :: "char \<Rightarrow> char" where
  "lower_char c =
     (case map_of (zip ''ABCDEFGHIJKLMNOPQRSTUVWXYZ'' ''abcdefghijklmnopqrstuvwxyz'') c of
        Some l \<Rightarrow> l
      | None \<Rightarrow> c)"

definition toLowerCase :: "string \<Rightarrow> string" where
  "toLowerCase s = map lower_char s"

section \<open>JavaScript numbers\<close>

text \<open>
  A finite Number is an IEEE 754 double, modelled as the rational it denotes. An arithmetic
  operation computes the exact result and rounds it to the nearest double, ties to the even
  significand. \<open>exponent x\<close> is the binary exponent \<open>\<lfloor>log\<^sub>2 x\<rfloor>\<close> of a positive \<open>x\<close>, found from
  the bit lengths of its numerator and denominator; \<open>ulp x\<close> is the spacing of the doubles around
  \<open>x\<close> (53 significant bits, subnormal below \<open>2\<^sup>-\<^sup>1\<^sup>0\<^sup>2\<^sup>2\<close>). Overflow to infinity, which starts
  at \<open>2\<^sup>1\<^sup>0\<^sup>2\<^sup>4\<close>, is outside the model.
\<close>

function bitlen :: "int \<Rightarrow> int" where
  "bitlen n = (if n \<le> 0 then 0 else 1 + bitlen (n div 2))"
  by pat_completeness auto
termination
  by (relation "measure nat") auto

declare bitlen.simps [simp del]

definition exponent :: "rat \<Rightarrow> int" where
  "exponent x =
     (let (a, b) = quotient_of x;
          d = bitlen a - bitlen b
      in if 2 powi d \<le> x then d else d - 1)"

definition ulp :: "rat \<Rightarrow> rat" where
  "ulp x = 2 powi (max (exponent x - 52) (- 1074))"

definition round_half_even :: "rat \<Rightarrow> int" where
  "round_half_even y =
     (let f = \<lfloor>y\<rfloor>; d = y - of_int f
      in if d < 1 / 2 then f else if 1 / 2 < d then f + 1 else if even f then f else f + 1)"

definition round_pos :: "rat \<Rightarrow> rat" where
  "round_pos x = ulp x * of_int (round_half_even (x / ulp x))"

definition fl :: "rat \<Rightarrow> rat" where
  "fl x = (if x = 0 then 0 else if 0 < x then round_pos x else - round_pos (- x))"

definition is_double :: "rat \<Rightarrow> bool" where
  "is_double x = (fl x = x)"

text \<open>The operators \<^verbatim>\<open>*\<close> and \<^verbatim>\<open>+\<close> on Numbers, and \<^verbatim>\<open>Math.floor\<close>.\<close>

definition js_mul :: "rat \<Rightarrow> rat \<Rightarrow> rat" where
  "js_mul x y = fl (x * y)"

definition js_add :: "rat \<Rightarrow> rat \<Rightarrow> rat" where
  "js_add x y = fl (x + y)"

definition Math_floor :: "rat \<Rightarrow> int" where
  "Math_floor x = \<lfloor>x\<rfloor>"

text \<open>
  \<^verbatim>\<open>Number.prototype.toString\<close> on an integer of magnitude below \<open>10\<^sup>2\<^sup>1\<close>: its decimal digits,
  after a minus sign when it is negative.
\<close>

definition digit_char :: "nat \<Rightarrow> char" where
  "digit_char d = ''0123456789'' ! d"

function digits :: "int \<Rightarrow> string" where
  "digits n =
     (if n < 10 then [digit_char (nat n)]
      else digits (n div 10) @ [digit_char (nat (n mod 10))])"
  by pat_completeness auto
termination
  by (relation "measure nat") auto

declare digits.simps [simp del]

definition toString :: "int \<Rightarrow> string" where
  "toString i = (if i < 0 then CHR ''-'' # digits (- i) else digits i)"

text \<open>Reading a decimal numeral back, to state the value of a code.\<close>

definition is_digit :: "char \<Rightarrow> bool" where
  "is_digit c = (c \<in> set ''0123456789'')"

definition digit_value :: "char \<Rightarrow> int" where
  "digit_value c = (case map_of (zip ''0123456789'' [0, 1, 2, 3, 4, 5, 6, 7, 8, 9]) c of
     Some d \<Rightarrow> d | None \<Rightarrow> 0)"

definition decimal_value :: "string \<Rightarrow> int" where
  "decimal_value s = foldl (\<lambda>acc c. 10 * acc + digit_value c) 0 s"

section \<open>The object \<^verbatim>\<open>otpStore\<close>\<close>

text \<open>
  \<^verbatim>\<open>const otpStore = {}\<close> is an ordinary object: its own properties are the pending codes, in
  insertion order, and its prototype is \<^verbatim>\<open>Object.prototype\<close>. A property read that finds no own
  property continues in the prototype, whose property names are listed here.
\<close>

type_synonym js_object = "(string \<times> string) list"

definition object_prototype_keys :: "string list" where
  "object_prototype_keys =
     [''constructor'', ''__defineGetter__'', ''__defineSetter__'', ''hasOwnProperty'',
      ''__lookupGetter__'', ''__lookupSetter__'', ''isPrototypeOf'', ''propertyIsEnumerable'',
      ''toString'', ''valueOf'', ''__proto__'', ''toLocaleString'']"

text \<open>\<^verbatim>\<open>obj[k]\<close>\<close>

definition js_get :: "js_object \<Rightarrow> string \<Rightarrow> jsval" where
  "js_get obj k =
     (case map_of obj k of
        Some v \<Rightarrow> JString v
      | None \<Rightarrow> if k \<in> set object_prototype_keys then JBuiltin k else JUndefined)"

text \<open>
  \<^verbatim>\<open>obj[k] = v\<close> for a string \<open>v\<close>: creates or overwrites the own property, except for the key
  \<^verbatim>\<open>__proto__\<close>, whose inherited setter ignores a value that is not an object.
\<close>

definition js_set :: "js_object \<Rightarrow> string \<Rightarrow> string \<Rightarrow> js_object" where
  "js_set obj k v = (if k = ''__proto__'' then obj else AList.update k v obj)"

text \<open>\<^verbatim>\<open>delete obj[k]\<close>: removes an own property; nothing happens when there is none.\<close>

definition js_delete :: "js_object \<Rightarrow> string \<Rightarrow> js_object" where
  "js_delete obj k = AList.delete k obj"

section \<open>The collection of users\<close>

text \<open>
  A document of the model \<^verbatim>\<open>User\<close> of \<^verbatim>\<open>src/models/user.model.js\<close>: the five fields of the schema,
  the \<^verbatim>\<open>_id\<close> that MongoDB gives every document and the two dates kept by the schema option
  \<^verbatim>\<open>timestamps: true\<close>. The collection is the list of its documents in insertion order.
\<close>

record user =
  uid :: nat
  username :: string
  email :: string
  password :: string
  phone :: string
  profession :: string
  createdAt :: nat
  updatedAt :: nat

type_synonym collection = "user list"

datatype store_error = ValidationError | DuplicateKey | CastError

text \<open>
  The setters of the schema, which Mongoose applies to a value when a document is built, when it
  is written by an update and when it is used in a query filter: \<^verbatim>\<open>trim\<close> on every field,
  \<^verbatim>\<open>lowercase\<close> on \<^verbatim>\<open>username\<close> and \<^verbatim>\<open>email\<close>.
\<close>

definition set_username :: "string \<Rightarrow> string" where
  "set_username v = toLowerCase (trim v)"

definition set_email :: "string \<Rightarrow> string" where
  "set_email v = toLowerCase (trim v)"

definition set_password :: "string \<Rightarrow> string" where
  "set_password v = trim v"

definition set_phone :: "string \<Rightarrow> string" where
  "set_phone v = trim v"

definition set_profession :: "string \<Rightarrow> string" where
  "set_profession v = trim v"

text \<open>
  The validators of the schema, run when a document is saved: every field is \<^verbatim>\<open>required\<close> (a
  string must be non-empty), and \<^verbatim>\<open>minlength\<close> is 3 for \<^verbatim>\<open>username\<close>, 5 for \<^verbatim>\<open>email\<close> and 5 for
  \<^verbatim>\<open>password\<close>.
\<close>

definition validate :: "user \<Rightarrow> bool" where
  "validate u =
     (username u \<noteq> [] \<and> 3 \<le> length (username u) \<and>
      email u \<noteq> [] \<and> 5 \<le> length (email u) \<and>
      password u \<noteq> [] \<and> 5 \<le> length (password u) \<and>
      phone u \<noteq> [] \<and> profession u \<noteq> [])"

text \<open>
  The unique indexes of the collection: \<^verbatim>\<open>_id\<close>, and the two fields the schema declares
  \<^verbatim>\<open>unique: true\<close>, namely \<^verbatim>\<open>username\<close> and \<^verbatim>\<open>email\<close>. The field \<^verbatim>\<open>phone\<close> has no index.
\<close>

definition index_conflict :: "collection \<Rightarrow> user \<Rightarrow> bool" where
  "index_conflict c u =
     (\<exists>v \<in> set c. uid v = uid u \<or> username v = username u \<or> email v = email u)"

text \<open>
  \<^verbatim>\<open>User.create({username, email, password, phone, profession})\<close>, with the fresh \<^verbatim>\<open>_id\<close> and the
  time of the call: setters, then validation, then the insert, which the server refuses with
  the duplicate key error E11000 when a unique index already holds one of the values.
\<close>

definition create ::
  "collection \<Rightarrow> nat \<Rightarrow> nat \<Rightarrow> string \<Rightarrow> string \<Rightarrow> string \<Rightarrow> string \<Rightarrow> string
     \<Rightarrow> store_error + collection" where
  "create c oid now un em pw ph pr =
     (let doc = \<lparr>uid = oid, username = set_username un, email = set_email em,
                 password = set_password pw, phone = set_phone ph,
                 profession = set_profession pr, createdAt = now, updatedAt = now\<rparr>
      in if \<not> validate doc then Inl ValidationError
         else if index_conflict c doc then Inl DuplicateKey
         else Inr (c @ [doc]))"

text \<open>\<^verbatim>\<open>User.findOne({ email })\<close>\<close>

definition findOne_email :: "collection \<Rightarrow> string \<Rightarrow> user option" where
  "findOne_email c em = find (\<lambda>u. email u = set_email em) c"

text \<open>\<^verbatim>\<open>User.findOne({ $or: [{ email }, { phone }] })\<close>\<close>

definition findOne_email_or_phone :: "collection \<Rightarrow> string \<Rightarrow> string \<Rightarrow> user option" where
  "findOne_email_or_phone c em ph =
     find (\<lambda>u. email u = set_email em \<or> phone u = set_phone ph) c"

text \<open>An update of the first document that matches a filter, as \<^verbatim>\<open>updateOne\<close> does.\<close>

fun update_first :: "('a \<Rightarrow> bool) \<Rightarrow> ('a \<Rightarrow> 'a) \<Rightarrow> 'a list \<Rightarrow> 'a list" where
  "update_first P f [] = []"
| "update_first P f (x # xs) = (if P x then f x # xs else x # update_first P f xs)"

text \<open>
  \<^verbatim>\<open>User.updateOne({ email }, { password: hashedPassword })\<close>: the update sets the password and,
  through the timestamps option, \<^verbatim>\<open>updatedAt\<close>.
\<close>

definition updateOne_password :: "collection \<Rightarrow> nat \<Rightarrow> string \<Rightarrow> string \<Rightarrow> collection" where
  "updateOne_password c now em hp =
     update_first (\<lambda>u. email u = set_email em)
       (\<lambda>u. u\<lparr>password := set_password hp, updatedAt := now\<rparr>) c"

text \<open>
  \<^verbatim>\<open>User.findByIdAndUpdate(id, { username, phone, profession }, { new: true })\<close>. The id is the
  route parameter cast to an ObjectId, \<open>None\<close> when the cast fails. A field of the update that is
  \<^verbatim>\<open>undefined\<close> (here \<open>None\<close>) is dropped from the update, and the timestamps option adds
  \<^verbatim>\<open>updatedAt\<close>. Validators do not run on updates, the unique index on \<^verbatim>\<open>username\<close> does. The
  result is the updated document, or nothing when no document has the id.
\<close>

definition apply_update :: "nat \<Rightarrow> string option \<Rightarrow> string option \<Rightarrow> string option \<Rightarrow> user \<Rightarrow> user" where
  "apply_update now un ph pr u =
     u\<lparr>username := (case un of None \<Rightarrow> username u | Some v \<Rightarrow> set_username v),
       phone := (case ph of None \<Rightarrow> phone u | Some v \<Rightarrow> set_phone v),
       profession := (case pr of None \<Rightarrow> profession u | Some v \<Rightarrow> set_profession v),
       updatedAt := now\<rparr>"

definition findByIdAndUpdate ::
  "collection \<Rightarrow> nat \<Rightarrow> nat option \<Rightarrow> string option \<Rightarrow> string option \<Rightarrow> string option
     \<Rightarrow> store_error + (user option \<times> collection)" where
  "findByIdAndUpdate c now rid un ph pr =
     (case rid of
        None \<Rightarrow> Inl CastError
      | Some i \<Rightarrow>
          (case find (\<lambda>u. uid u = i) c of
             None \<Rightarrow> Inr (None, c)
           | Some u \<Rightarrow>
               let u' = apply_update now un ph pr u
               in if \<exists>v \<in> set c. uid v \<noteq> i \<and> username v = username u' then Inl DuplicateKey
                  else Inr (Some u', update_first (\<lambda>u. uid u = i) (\<lambda>_. u') c)))"

text \<open>
  What a query hands to the route: the document as an object of its stored fields, and the
  projection \<^verbatim>\<open>select('-password')\<close>, which leaves the named field out.
\<close>

datatype bson = BObjectId nat | BString string | BDate nat | BInt32 int

type_synonym document = "(string \<times> bson) list"

definition toObject :: "user \<Rightarrow> document" where
  "toObject u =
     [(''_id'', BObjectId (uid u)), (''username'', BString (username u)),
      (''email'', BString (email u)), (''password'', BString (password u)),
      (''phone'', BString (phone u)), (''profession'', BString (profession u)),
      (''createdAt'', BDate (createdAt u)), (''updatedAt'', BDate (updatedAt u)),
      (''__v'', BInt32 0)]"

definition select_exclude :: "string \<Rightarrow> document \<Rightarrow> document" where
  "select_exclude field d = filter (\<lambda>(k, v). k \<noteq> field) d"

section \<open>The routes\<close>

text \<open>
  The state that outlives a request: the collection and the module-level \<^verbatim>\<open>otpStore\<close>. A handler
  takes the state and the fields of the request body and returns the state it leaves and the
  response it writes. What a handler draws from its environment is an argument: the clock, the
  \<^verbatim>\<open>_id\<close> of a new document, the outcome of \<^verbatim>\<open>Math.random()\<close>, the functions \<^verbatim>\<open>bcrypt.hash(\<cdot>, 10)\<close>
  (with the salt of that call) and \<^verbatim>\<open>bcrypt.compare\<close>, express-validator's \<^verbatim>\<open>isEmail\<close>, and whether
  \<^verbatim>\<open>transporter.sendMail\<close> resolves. The database itself is taken to answer every query. The
  fields of a body are strings, as a submitted form sends them; only for the code submitted to
  /verify-otp, which the handler compares without any conversion, the absent field is modelled
  as well.
\<close>

record app =
  users :: collection
  otpStore :: js_object

datatype response =
    Render string "string list"
  | Redirect string
  | Json nat string
  | JsonUsers nat "document list"
  | JsonUser nat string document
  | Rejected

text \<open>
  \<open>Render view errors\<close> is \<^verbatim>\<open>res.render(view, { errors, ... })\<close> with the messages of \<^verbatim>\<open>errors\<close>;
  \<open>Json status message\<close> is \<^verbatim>\<open>res.status(status).json({ message })\<close>; \<open>Rejected\<close> is a handler
  whose promise rejects before it writes a response.
\<close>

subsection \<open>POST /register\<close>

definition register_errors ::
  "(string \<Rightarrow> bool) \<Rightarrow> string \<Rightarrow> string \<Rightarrow> string \<Rightarrow> string \<Rightarrow> string \<Rightarrow> string list" where
  "register_errors isEmail un em pw ph pr =
     (if isEmail (trim em) then [] else [''Enter a valid email'']) @
     (if 5 \<le> length (trim pw) then [] else [''Password must be at least 5 characters'']) @
     (if 3 \<le> length (trim un) then [] else [''Name must be at least 3 characters'']) @
     (if 10 \<le> length (trim ph) then [] else [''Phone must be at least 10 digits'']) @
     (if trim pr \<noteq> [] then [] else [''Profession is required''])"

definition register ::
  "(string \<Rightarrow> bool) \<Rightarrow> (string \<Rightarrow> string) \<Rightarrow> nat \<Rightarrow> nat \<Rightarrow> app
     \<Rightarrow> string \<Rightarrow> string \<Rightarrow> string \<Rightarrow> string \<Rightarrow> string \<Rightarrow> app \<times> response" where
  "register isEmail bcrypt_hash oid now s un em pw ph pr =
     (let errors = register_errors isEmail un em pw ph pr
      in if errors \<noteq> [] then (s, Render ''register'' errors)
         else
           (case findOne_email_or_phone (users s) (trim em) (trim ph) of
              Some userExists \<Rightarrow> (s, Render ''register'' [''Email or phone already registered''])
            | None \<Rightarrow>
                (case create (users s) oid now (trim un) (trim em) (bcrypt_hash (trim pw))
                        (trim ph) (trim pr) of
                   Inl err \<Rightarrow> (s, Render ''register'' [''Server error, please try again''])
                 | Inr c \<Rightarrow> (s\<lparr>users := c\<rparr>, Redirect ''/users/login''))))"

subsection \<open>POST /login\<close>

definition login ::
  "(string \<Rightarrow> bool) \<Rightarrow> (string \<Rightarrow> string \<Rightarrow> bool) \<Rightarrow> app \<Rightarrow> string \<Rightarrow> string \<Rightarrow> response" where
  "login isEmail bcrypt_compare s em pw =
     (let errors =
            (if isEmail (trim em) then [] else [''Enter valid email'']) @
            (if 5 \<le> length (trim pw) then [] else [''Enter valid password''])
      in if errors \<noteq> [] then Json 400 (hd errors)
         else
           (case findOne_email (users s) (trim em) of
              None \<Rightarrow> Json 400 ''Email or password is incorrect!''
            | Some u \<Rightarrow>
                if \<not> bcrypt_compare (trim pw) (password u)
                then Json 400 ''Email or password is incorrect!''
                else Json 200 ''Login successful''))"

subsection \<open>GET / and PUT /:id\<close>

definition list_users :: "app \<Rightarrow> response" where
  "list_users s = JsonUsers 200 (map (\<lambda>u. select_exclude ''password'' (toObject u)) (users s))"

definition update_user ::
  "nat \<Rightarrow> app \<Rightarrow> nat option \<Rightarrow> string option \<Rightarrow> string option \<Rightarrow> string option
     \<Rightarrow> app \<times> response" where
  "update_user now s rid un ph pr =
     (case findByIdAndUpdate (users s) now rid un ph pr of
        Inl err \<Rightarrow> (s, Json 500 ''Server error'')
      | Inr (None, c) \<Rightarrow> (s, Json 404 ''User not found'')
      | Inr (Some updatedUser, c) \<Rightarrow>
          (s\<lparr>users := c\<rparr>,
           JsonUser 200 ''User updated successfully''
             (select_exclude ''password'' (toObject updatedUser))))"

subsection \<open>POST /forgot-password, /verify-otp and /reset-password\<close>

text \<open>\<^verbatim>\<open>Math.floor(100000 + Math.random() * 900000).toString()\<close>, for the outcome \<open>r\<close> of the draw.\<close>

definition generate_otp :: "rat \<Rightarrow> string" where
  "generate_otp r = toString (Math_floor (js_add 100000 (js_mul r 900000)))"

record mail =
  mail_from :: string
  mail_to :: string
  mail_subject :: string
  mail_text :: string

text \<open>
  The handler of /forgot-password up to its \<^verbatim>\<open>await transporter.sendMail(...)\<close>: either the response
  for an unknown address, or the state it has reached and the message it hands to the
  transporter.
\<close>

definition forgot_password_issue :: "string \<Rightarrow> app \<Rightarrow> string \<Rightarrow> rat \<Rightarrow> response + app \<times> mail" where
  "forgot_password_issue EMAIL_USER s em r =
     (case findOne_email (users s) em of
        None \<Rightarrow> Inl (Render ''forgot-password'' [''Email not found''])
      | Some u \<Rightarrow>
          let otp = generate_otp r
          in Inr (s\<lparr>otpStore := js_set (otpStore s) em otp\<rparr>,
                  \<lparr>mail_from = EMAIL_USER, mail_to = em,
                   mail_subject = ''Your OTP for Password Reset'',
                   mail_text = ''Your OTP is: '' @ otp\<rparr>))"

text \<open>
  The whole handler: \<open>sendMail m\<close> tells whether the transporter delivers \<open>m\<close>. When it does not,
  the awaited promise rejects, nothing catches it, and the handler ends there.
\<close>

definition forgot_password ::
  "string \<Rightarrow> (mail \<Rightarrow> bool) \<Rightarrow> app \<Rightarrow> string \<Rightarrow> rat \<Rightarrow> app \<times> response" where
  "forgot_password EMAIL_USER sendMail s em r =
     (case forgot_password_issue EMAIL_USER s em r of
        Inl resp \<Rightarrow> (s, resp)
      | Inr (s', m) \<Rightarrow> if sendMail m then (s', Render ''verify-otp'' []) else (s', Rejected))"

text \<open>The submitted code is a field of the body: a string, or \<^verbatim>\<open>undefined\<close> when the field is absent.\<close>

definition verify_otp :: "app \<Rightarrow> string \<Rightarrow> jsval \<Rightarrow> app \<times> response" where
  "verify_otp s em otp =
     (if strict_neq (js_get (otpStore s) em) otp
      then (s, Render ''verify-otp'' [''Invalid OTP''])
      else (s, Render ''reset-password'' []))"

definition reset_password ::
  "(string \<Rightarrow> string) \<Rightarrow> nat \<Rightarrow> app \<Rightarrow> string \<Rightarrow> string \<Rightarrow> app \<times> response" where
  "reset_password bcrypt_hash now s em pw =
     (if \<not> truthy (js_get (otpStore s) em)
      then (s, Render ''reset-password'' [''OTP expired or invalid''])
      else
        (let hashedPassword = bcrypt_hash pw
         in (s\<lparr>users := updateOne_password (users s) now em hashedPassword,
               otpStore := js_delete (otpStore s) em\<rparr>,
             Redirect ''/users/login'')))"

text \<open>
  What holds of \<^verbatim>\<open>otpStore\<close> in every state the routes reach from the empty object: no key occurs
  twice, and every pending code is a non-empty string.
\<close>

definition otp_invariant :: "js_object \<Rightarrow> bool" where
  "otp_invariant obj = (distinct (map fst obj) \<and> (\<forall>(k, v) \<in> set obj. v \<noteq> []))"

text \<open>
  The states of a running server: it starts with whatever the database holds and an empty
  \<^verbatim>\<open>otpStore\<close>, and every request to one of the routes above takes it from one state to the next,
  for any request body and any behaviour of the environment. (The remaining routes of the file,
  DELETE /:id, /verify-user and the pages, do not touch \<^verbatim>\<open>otpStore\<close>.)
\<close>

inductive reachable :: "app \<Rightarrow> bool" where
  start: "reachable \<lparr>users = c, otpStore = []\<rparr>"
| step_register:
    "reachable s \<Longrightarrow> reachable (fst (register isEmail H oid now s un em pw ph pr))"
| step_update_user:
    "reachable s \<Longrightarrow> reachable (fst (update_user now s rid uno pho pro))"
| step_forgot_password:
    "reachable s \<Longrightarrow> reachable (fst (forgot_password E sendMail s em r))"
| step_verify_otp:
    "reachable s \<Longrightarrow> reachable (fst (verify_otp s em otp))"
| step_reset_password:
    "reachable s \<Longrightarrow> reachable (fst (reset_password H now s em pw))"

text \<open>A run of /verify-otp requests for one address, one submitted code after the other.\<close>

definition verify_attempts :: "app \<Rightarrow> string \<Rightarrow> jsval list \<Rightarrow> app" where
  "verify_attempts s em otps = foldl (\<lambda>s' otp. fst (verify_otp s' em otp)) s otps"

section \<open>A small instance\<close>

text \<open>
  One registered user and stand-ins for the environment, used to run the routes on concrete
  requests: \<open>example_hash\<close> and \<open>example_compare\<close> play \<^verbatim>\<open>bcrypt.hash\<close> and \<^verbatim>\<open>bcrypt.compare\<close>,
  \<open>example_isEmail\<close> plays \<^verbatim>\<open>isEmail\<close>.
\<close>

definition example_hash :: "string \<Rightarrow> string" where
  "example_hash p = ''$2b$10$'' @ p"

definition example_compare :: "string \<Rightarrow> string \<Rightarrow> bool" where
  "example_compare p h = (h = example_hash p)"

definition example_isEmail :: "string \<Rightarrow> bool" where
  "example_isEmail a = (CHR ''@'' \<in> set a)"

definition example_user :: user where
  "example_user =
     \<lparr>uid = 1, username = ''ann'', email = ''ann@x.com'', password = example_hash ''secret'',
      phone = ''5550100200'', profession = ''engineer'', createdAt = 1000, updatedAt = 1000\<rparr>"

definition example_app :: app where
  "example_app = \<lparr>users = [example_user], otpStore = []\<rparr>"

section \<open>Properties of the number model\<close>

subsection \<open>Rounding to the nearest double\<close>

lemma bitlen_bounds:
  "0 < n \<Longrightarrow> 0 < bitlen n \<and> 2 ^ nat (bitlen n - 1) \<le> n \<and> n < 2 ^ nat (bitlen n)"
proof (induction n rule: bitlen.induct)
  case (1 n)
  show ?case
  proof (cases "n = 1")
    case True
    have "bitlen 1 = 1" by (simp add: bitlen.simps)
    with True show ?thesis by simp
  next
    case False
    with "1.prems" have h: "0 < n div 2" by simp
    from "1.prems" have nle: "\<not> n \<le> 0" by simp
    from "1.IH"[OF nle h] have b: "0 < bitlen (n div 2)"
      and lo: "2 ^ nat (bitlen (n div 2) - 1) \<le> n div 2"
      and hi: "n div 2 < 2 ^ nat (bitlen (n div 2))" by simp_all
    have eq: "bitlen n = 1 + bitlen (n div 2)" using nle by (subst bitlen.simps) simp
    from b have "nat (bitlen (n div 2)) = Suc (nat (bitlen (n div 2) - 1))" by simp
    then have p: "(2::int) ^ nat (bitlen (n div 2)) = 2 * 2 ^ nat (bitlen (n div 2) - 1)"
      by (simp only: power_Suc)
    have p2: "(2::int) ^ nat (1 + bitlen (n div 2)) = 2 * 2 ^ nat (bitlen (n div 2))"
      using b by (simp add: nat_add_distrib)
    show ?thesis using b lo hi eq p p2 by (simp add: nat_add_distrib) linarith
  qed
qed

lemma bitlen_powi:
  assumes "0 < n"
  shows "2 powi (bitlen n - 1) \<le> (of_int n :: rat)" and "(of_int n :: rat) < 2 powi (bitlen n)"
proof -
  from bitlen_bounds[OF assms] have b: "0 < bitlen n"
    and lo: "2 ^ nat (bitlen n - 1) \<le> n" and hi: "n < 2 ^ nat (bitlen n)" by simp_all
  have "(2::rat) powi (bitlen n - 1) = 2 ^ nat (bitlen n - 1)"
    using b by (simp add: power_int_nonneg_exp)
  also have "\<dots> = of_int (2 ^ nat (bitlen n - 1))" by simp
  also have "\<dots> \<le> of_int n" using lo by (simp only: of_int_le_iff)
  finally show "2 powi (bitlen n - 1) \<le> (of_int n :: rat)" .
  have "(of_int n :: rat) < of_int (2 ^ nat (bitlen n))" using hi by (simp only: of_int_less_iff)
  also have "\<dots> = 2 powi (bitlen n)" using b by (simp add: power_int_nonneg_exp)
  finally show "(of_int n :: rat) < 2 powi (bitlen n)" .
qed

lemma exponent_bounds:
  assumes "0 < x"
  shows "2 powi (exponent x) \<le> x" and "x < 2 powi (exponent x + 1)"
proof -
  obtain a b where q: "quotient_of x = (a, b)" by (cases "quotient_of x")
  have bpos: "0 < b" using q by (rule quotient_of_denom_pos)
  have xeq: "x = of_int a / of_int b" using q by (rule quotient_of_div)
  have apos: "0 < a" using assms bpos xeq by (simp add: zero_less_divide_iff)
  define d where "d = bitlen a - bitlen b"
  have ra: "0 < (of_int a :: rat)" "0 < (of_int b :: rat)" using apos bpos by simp_all
  have p0: "(0::rat) < 2 powi k" for k by (simp add: zero_less_power_int)
  have lo: "2 powi (d - 1) < x"
  proof -
    have "2 powi (d - 1) * of_int b < 2 powi (d - 1) * (2 powi (bitlen b) :: rat)"
      using bitlen_powi(2)[OF bpos] p0 by simp
    also have "\<dots> = 2 powi (bitlen a - 1)"
      by (simp add: d_def power_int_add[symmetric])
    also have "\<dots> \<le> of_int a" using bitlen_powi(1)[OF apos] .
    finally show ?thesis using ra by (simp add: xeq pos_less_divide_eq)
  qed
  have hi: "x < 2 powi (d + 1)"
  proof -
    have "(of_int a :: rat) < 2 powi (bitlen a)" using bitlen_powi(2)[OF apos] .
    also have "\<dots> = 2 powi (d + 1) * 2 powi (bitlen b - 1)"
      by (simp add: d_def power_int_add[symmetric])
    also have "\<dots> \<le> 2 powi (d + 1) * of_int b"
      using bitlen_powi(1)[OF bpos] p0 by simp
    finally show ?thesis using ra by (simp add: xeq pos_divide_less_eq)
  qed
  have e: "exponent x = (if 2 powi d \<le> x then d else d - 1)"
    by (simp add: exponent_def q d_def)
  show "2 powi (exponent x) \<le> x" using lo by (simp add: e)
  show "x < 2 powi (exponent x + 1)" using hi by (simp add: e)
qed

lemma exponent_less:
  assumes "0 < x" and "x < 2 powi n"
  shows "exponent x < n"
proof (rule ccontr)
  assume "\<not> exponent x < n"
  then have "n \<le> exponent x" by simp
  then have "(2::rat) powi n \<le> 2 powi (exponent x)" by (rule power_int_increasing) simp
  with exponent_bounds(1)[OF assms(1)] assms(2) show False by simp
qed

lemma exponent_ge:
  assumes "0 < x" and "2 powi n \<le> x"
  shows "n \<le> exponent x"
proof (rule ccontr)
  assume "\<not> n \<le> exponent x"
  then have "exponent x + 1 \<le> n" by simp
  then have "(2::rat) powi (exponent x + 1) \<le> 2 powi n" by (rule power_int_increasing) simp
  with exponent_bounds(2)[OF assms(1)] assms(2) show False by simp
qed

lemma round_half_even_ge: "of_int k \<le> y \<Longrightarrow> k \<le> round_half_even y"
proof -
  assume "of_int k \<le> y"
  then have "k \<le> \<lfloor>y\<rfloor>" by (simp add: le_floor_iff)
  then show ?thesis by (simp add: round_half_even_def Let_def)
qed

lemma round_half_even_le_half: "y < of_int k + 1 / 2 \<Longrightarrow> round_half_even y \<le> k"
proof -
  assume h: "y < of_int k + 1 / 2"
  then have "y < of_int (k + 1)" by simp
  then have "\<lfloor>y\<rfloor> < k + 1" by (simp only: floor_less_iff)
  then have f: "\<lfloor>y\<rfloor> \<le> k" by simp
  show ?thesis
  proof (cases "\<lfloor>y\<rfloor> = k")
    case True
    with h have "y - of_int \<lfloor>y\<rfloor> < 1 / 2" by simp
    with True show ?thesis by (simp add: round_half_even_def Let_def)
  next
    case False
    with f have "\<lfloor>y\<rfloor> + 1 \<le> k" by simp
    then show ?thesis using f by (simp add: round_half_even_def Let_def)
  qed
qed

lemma ulp_pos: "0 < ulp x"
  by (simp add: ulp_def zero_less_power_int)

lemma round_pos_nonneg: "0 \<le> x \<Longrightarrow> 0 \<le> round_pos x"
proof -
  assume "0 \<le> x"
  then have "of_int 0 \<le> x / ulp x" using ulp_pos[of x] by simp
  then have "0 \<le> round_half_even (x / ulp x)" by (rule round_half_even_ge)
  then show ?thesis using ulp_pos[of x] by (simp add: round_pos_def)
qed

lemma fl_nonneg: "0 \<le> x \<Longrightarrow> 0 \<le> fl x"
  by (simp add: fl_def round_pos_nonneg)

lemma fl_le_multiple_half:
  assumes "0 < x" and "x < (of_int k + 1 / 2) * ulp x"
  shows "fl x \<le> of_int k * ulp x"
proof -
  have "x / ulp x < of_int k + 1 / 2" using assms(2) ulp_pos[of x] by (simp add: pos_divide_less_eq)
  then have "round_half_even (x / ulp x) \<le> k" by (rule round_half_even_le_half)
  then have "(of_int (round_half_even (x / ulp x)) :: rat) \<le> of_int k" by (simp only: of_int_le_iff)
  then have "ulp x * of_int (round_half_even (x / ulp x)) \<le> ulp x * of_int k"
    using ulp_pos[of x] by simp
  then show ?thesis using assms(1) by (simp add: fl_def round_pos_def mult.commute)
qed

lemma fl_le_multiple:
  assumes "0 < x" and "x \<le> of_int k * ulp x"
  shows "fl x \<le> of_int k * ulp x"
proof (rule fl_le_multiple_half[OF assms(1)])
  have "of_int k * ulp x < (of_int k + 1 / 2) * ulp x" using ulp_pos[of x] by simp
  with assms(2) show "x < (of_int k + 1 / 2) * ulp x" by simp
qed

lemma fl_ge_multiple:
  assumes "0 < x" and "of_int k * ulp x \<le> x"
  shows "of_int k * ulp x \<le> fl x"
proof -
  have "of_int k \<le> x / ulp x" using assms(2) ulp_pos[of x] by (simp add: pos_le_divide_eq)
  then have "k \<le> round_half_even (x / ulp x)" by (rule round_half_even_ge)
  then have "(of_int k :: rat) \<le> of_int (round_half_even (x / ulp x))" by (simp only: of_int_le_iff)
  then have "ulp x * of_int k \<le> ulp x * of_int (round_half_even (x / ulp x))"
    using ulp_pos[of x] by simp
  then show ?thesis using assms(1) by (simp add: fl_def round_pos_def mult.commute)
qed

text \<open>Below \<open>2\<^sup>2\<^sup>0\<close> the spacing of the doubles divides \<open>2\<^sup>-\<^sup>3\<^sup>3\<close>.\<close>

lemma ulp_divides:
  assumes "0 < x" and "x < 2 ^ 20"
  shows "\<exists>m::nat. 1 / 2 ^ 33 = 2 ^ m * ulp x"
proof -
  have "x < 2 powi 20" using assms(2) by simp
  from exponent_less[OF assms(1) this] have e: "exponent x < 20" .
  define q where "q = max (exponent x - 52) (- 1074)"
  have q: "q \<le> - 33" using e by (simp add: q_def)
  have "(2::rat) ^ nat (- 33 - q) * 2 powi q = 2 powi (- 33 - q) * 2 powi q"
    using q by (simp add: power_int_nonneg_exp)
  also have "\<dots> = 2 powi (- 33)" by (simp add: power_int_add[symmetric])
  also have "\<dots> = 1 / 2 ^ 33" by (simp add: power_int_minus_divide)
  finally have "1 / 2 ^ 33 = 2 ^ nat (- 33 - q) * ulp x" by (simp add: ulp_def q_def)
  then show ?thesis ..
qed

lemma fl_le_grid:
  assumes "0 < x" and "x < 2 ^ 20" and "x \<le> of_int k / 2 ^ 33"
  shows "fl x \<le> of_int k / 2 ^ 33"
proof -
  from ulp_divides[OF assms(1,2)] obtain m :: nat where m: "1 / 2 ^ 33 = 2 ^ m * ulp x" ..
  have eq: "(of_int k :: rat) / 2 ^ 33 = of_int (k * 2 ^ m) * ulp x"
    using m by (simp add: field_simps)
  show ?thesis unfolding eq using assms(3) unfolding eq by (rule fl_le_multiple[OF assms(1)])
qed

lemma fl_ge_grid:
  assumes "0 < x" and "x < 2 ^ 20" and "of_int k / 2 ^ 33 \<le> x"
  shows "of_int k / 2 ^ 33 \<le> fl x"
proof -
  from ulp_divides[OF assms(1,2)] obtain m :: nat where m: "1 / 2 ^ 33 = 2 ^ m * ulp x" ..
  have eq: "(of_int k :: rat) / 2 ^ 33 = of_int (k * 2 ^ m) * ulp x"
    using m by (simp add: field_simps)
  show ?thesis unfolding eq using assms(3) unfolding eq by (rule fl_ge_multiple[OF assms(1)])
qed

text \<open>The largest double below 1 is \<open>1 - 2\<^sup>-\<^sup>5\<^sup>3\<close>.\<close>

lemma double_below_one:
  assumes "is_double r" and "0 \<le> r" and "r < 1"
  shows "r \<le> 1 - 1 / 2 ^ 53"
proof (cases "r = 0")
  case True
  then show ?thesis by simp
next
  case False
  with assms(2) have pos: "0 < r" by simp
  have "r < 2 powi 0" using assms(3) by simp
  from exponent_less[OF pos this] have e: "exponent r < 0" .
  show ?thesis
  proof (cases "exponent r = - 1")
    case True
    then have u: "ulp r = 1 / 2 ^ 53" by (simp add: ulp_def power_int_minus_divide)
    define n where "n = round_half_even (r / ulp r)"
    have "ulp r * of_int (round_half_even (r / ulp r)) = r"
      using assms(1) pos by (simp add: is_double_def fl_def round_pos_def)
    then have "ulp r * of_int n = r" by (simp only: n_def)
    then have r: "r = of_int n / 2 ^ 53" by (simp add: u)
    with assms(3) have "(of_int n :: rat) < of_int (2 ^ 53)" by (simp add: pos_divide_less_eq)
    then have "n < 2 ^ 53" by (simp only: of_int_less_iff)
    then have "n \<le> 2 ^ 53 - 1" by simp
    then have "(of_int n :: rat) \<le> of_int (2 ^ 53 - 1)" by (simp only: of_int_le_iff)
    then show ?thesis by (simp add: r field_simps)
  next
    case False
    with e have "exponent r + 1 \<le> - 1" by simp
    then have "(2::rat) powi (exponent r + 1) \<le> 2 powi (- 1)" by (rule power_int_increasing) simp
    with exponent_bounds(2)[OF pos] have "r < 1 / 2" by (simp add: power_int_minus_divide)
    then show ?thesis by simp
  qed
qed

lemma js_mul_draw_le:
  assumes "0 \<le> r" and "r \<le> 1 - 1 / 2 ^ 53"
  shows "js_mul r 900000 \<le> 900000 - 1 / 2 ^ 33"
proof (cases "r * 900000 \<le> 0")
  case True
  with assms(1) have "r * 900000 = 0" by simp
  then show ?thesis by (simp add: js_mul_def fl_def)
next
  case False
  define x where "x = r * 900000"
  have pos: "0 < x" using False by (simp add: x_def)
  have ub: "x \<le> 900000 - 900000 / 2 ^ 53" using assms(2) by (simp add: x_def field_simps)
  have lt: "x < 2 ^ 20" using ub by simp
  have T: "(900000::rat) - 1 / 2 ^ 33 = of_int (900000 * 2 ^ 33 - 1) / 2 ^ 33" by simp
  show ?thesis
  proof (cases "x \<le> 900000 - 1 / 2 ^ 33")
    case True
    then have "x \<le> of_int (900000 * 2 ^ 33 - 1) / 2 ^ 33" by (simp only: T)
    from fl_le_grid[OF pos lt this] show ?thesis by (simp only: T x_def js_mul_def)
  next
    case False
    then have "2 powi 19 \<le> x" by simp
    from exponent_ge[OF pos this] have "19 \<le> exponent x" .
    moreover have "x < 2 powi 20" using lt by simp
    from exponent_less[OF pos this] have "exponent x < 20" .
    ultimately have "exponent x = 19" by simp
    then have u: "ulp x = 1 / 2 ^ 33" by (simp add: ulp_def power_int_minus_divide)
    have "x < (of_int (900000 * 2 ^ 33 - 1) + 1 / 2) * ulp x" using ub by (simp add: u)
    from fl_le_multiple_half[OF pos this] have "fl x \<le> 900000 - 1 / 2 ^ 33" by (simp add: u)
    then show ?thesis by (simp only: x_def js_mul_def)
  qed
qed

lemma otp_number_range:
  assumes "is_double r" and "0 \<le> r" and "r < 1"
  shows "100000 \<le> Math_floor (js_add 100000 (js_mul r 900000))"
    and "Math_floor (js_add 100000 (js_mul r 900000)) \<le> 999999"
proof -
  have r: "r \<le> 1 - 1 / 2 ^ 53" using assms by (rule double_below_one)
  define p where "p = js_mul r 900000"
  have "0 \<le> r * 900000" using assms(2) by simp
  then have p0: "0 \<le> p" by (simp add: p_def js_mul_def fl_nonneg)
  have p1: "p \<le> 900000 - 1 / 2 ^ 33" unfolding p_def using assms(2) r by (rule js_mul_draw_le)
  define x where "x = 100000 + p"
  have pos: "0 < x" using p0 by (simp add: x_def)
  have lt: "x < 2 ^ 20" using p1 by (simp add: x_def)
  have "of_int (100000 * 2 ^ 33) / 2 ^ 33 \<le> x" using p0 by (simp add: x_def)
  from fl_ge_grid[OF pos lt this] have lo: "100000 \<le> fl x" by simp
  have "x \<le> of_int (1000000 * 2 ^ 33 - 1) / 2 ^ 33" using p1 by (simp add: x_def)
  from fl_le_grid[OF pos lt this] have hi: "fl x < 1000000" by simp
  have "100000 \<le> \<lfloor>fl x\<rfloor>" using lo by (simp add: le_floor_iff)
  moreover have "\<lfloor>fl x\<rfloor> < 1000000" using hi by (simp add: floor_less_iff)
  ultimately show "100000 \<le> Math_floor (js_add 100000 (js_mul r 900000))"
    and "Math_floor (js_add 100000 (js_mul r 900000)) \<le> 999999"
    by (simp_all add: Math_floor_def js_add_def p_def x_def)
qed

subsection \<open>Decimal digits\<close>

lemma digit_char_is_digit: "d < 10 \<Longrightarrow> is_digit (digit_char d)"
proof -
  assume "d < 10"
  then have "d \<in> {0, 1, 2, 3, 4, 5, 6, 7, 8, 9}" by auto
  then show ?thesis by (auto simp: digit_char_def is_digit_def)
qed

lemma digit_value_digit_char: "d < 10 \<Longrightarrow> digit_value (digit_char d) = int d"
proof -
  assume "d < 10"
  then have "d \<in> {0, 1, 2, 3, 4, 5, 6, 7, 8, 9}" by auto
  then show ?thesis by (auto simp: digit_char_def digit_value_def)
qed

lemma digits_nonempty: "digits n \<noteq> []"
  by (subst digits.simps) simp

lemma digits_all_digits: "0 \<le> n \<Longrightarrow> \<forall>c \<in> set (digits n). is_digit c"
proof (induction n rule: digits.induct)
  case (1 n)
  show ?case
  proof (cases "n < 10")
    case True
    with "1.prems" have "nat n < 10" by simp
    with True show ?thesis by (subst digits.simps) (simp add: digit_char_is_digit)
  next
    case False
    have "nat (n mod 10) < 10" by simp
    moreover from False have "0 \<le> n div 10" by simp
    ultimately show ?thesis using False "1.IH"
      by (subst digits.simps) (simp add: digit_char_is_digit)
  qed
qed

lemma decimal_value_snoc: "decimal_value (s @ [c]) = 10 * decimal_value s + digit_value c"
  by (simp add: decimal_value_def)

lemma decimal_value_digits: "0 \<le> n \<Longrightarrow> decimal_value (digits n) = n"
proof (induction n rule: digits.induct)
  case (1 n)
  show ?case
  proof (cases "n < 10")
    case True
    with "1.prems" have "nat n < 10" by simp
    then have "digit_value (digit_char (nat n)) = int (nat n)" by (rule digit_value_digit_char)
    with True "1.prems" show ?thesis
      by (subst digits.simps) (simp add: decimal_value_def)
  next
    case False
    then have "0 \<le> n div 10" by simp
    with False "1.IH" have ih: "decimal_value (digits (n div 10)) = n div 10" by simp
    have "nat (n mod 10) < 10" by simp
    then have "digit_value (digit_char (nat (n mod 10))) = int (nat (n mod 10))"
      by (rule digit_value_digit_char)
    then have dv: "digit_value (digit_char (nat (n mod 10))) = n mod 10" by simp
    from False have "digits n = digits (n div 10) @ [digit_char (nat (n mod 10))]"
      by (subst digits.simps) simp
    then show ?thesis by (simp only: decimal_value_snoc ih dv) simp
  qed
qed

lemma length_digits_6:
  assumes "100000 \<le> n" and "n \<le> 999999"
  shows "length (digits n) = 6"
proof -
  have d: "\<not> m < 10 \<Longrightarrow> length (digits m) = Suc (length (digits (m div 10)))" for m
    by (subst digits.simps) simp
  have b: "m < 10 \<Longrightarrow> length (digits m) = 1" for m
    by (subst digits.simps) simp
  have "length (digits n) = Suc (length (digits (n div 10)))" using assms by (intro d) simp
  also have "length (digits (n div 10)) = Suc (length (digits (n div 10 div 10)))"
    using assms by (intro d) simp
  also have "length (digits (n div 10 div 10)) = Suc (length (digits (n div 10 div 10 div 10)))"
    using assms by (intro d) simp
  also have "length (digits (n div 10 div 10 div 10)) =
      Suc (length (digits (n div 10 div 10 div 10 div 10)))"
    using assms by (intro d) simp
  also have "length (digits (n div 10 div 10 div 10 div 10)) =
      Suc (length (digits (n div 10 div 10 div 10 div 10 div 10)))"
    using assms by (intro d) simp
  also have "length (digits (n div 10 div 10 div 10 div 10 div 10)) = 1"
    using assms by (intro b) simp
  finally show ?thesis by simp
qed

lemma toString_nonempty: "toString i \<noteq> []"
  by (simp add: toString_def digits_nonempty)

lemma generate_otp_nonempty: "generate_otp r \<noteq> []"
  by (simp add: generate_otp_def toString_nonempty)

section \<open>The one-time code\<close>

text \<open>
  C7. Whatever double in \<open>[0, 1)\<close> the call \<^verbatim>\<open>Math.random()\<close> returns, the code that
  /forgot-password generates is a string of exactly six decimal digits, and the number it
  denotes lies between 100000 and 999999, both included.
\<close>

theorem generate_otp_six_digits:
  assumes "is_double r" and "0 \<le> r" and "r < 1"
  shows "length (generate_otp r) = 6 \<and> (\<forall>c \<in> set (generate_otp r). is_digit c) \<and>
         100000 \<le> decimal_value (generate_otp r) \<and> decimal_value (generate_otp r) \<le> 999999"
proof -
  define n where "n = Math_floor (js_add 100000 (js_mul r 900000))"
  from otp_number_range[OF assms] have lo: "100000 \<le> n" and hi: "n \<le> 999999"
    by (simp_all add: n_def)
  then have g: "generate_otp r = digits n" by (simp add: generate_otp_def toString_def n_def)
  have nn: "0 \<le> n" using lo by simp
  have "length (digits n) = 6" using lo hi by (rule length_digits_6)
  moreover have "\<forall>c \<in> set (digits n). is_digit c" using nn by (rule digits_all_digits)
  moreover have "decimal_value (digits n) = n" using nn by (rule decimal_value_digits)
  ultimately show ?thesis using lo hi by (simp add: g)
qed

theorem generate_otp_six_digits_witness:
  "is_double (1 - 1 / 2 ^ 53) \<and> (0::rat) \<le> 1 - 1 / 2 ^ 53 \<and> (1 - 1 / 2 ^ 53 :: rat) < 1 \<and>
   generate_otp (1 - 1 / 2 ^ 53) = ''999999'' \<and>
   length (generate_otp (1 - 1 / 2 ^ 53)) = 6 \<and>
   list_all is_digit (generate_otp (1 - 1 / 2 ^ 53)) \<and>
   100000 \<le> decimal_value (generate_otp (1 - 1 / 2 ^ 53)) \<and>
   decimal_value (generate_otp (1 - 1 / 2 ^ 53)) \<le> 999999"
proof -
  have h1: "is_double (1 - 1 / 2 ^ 53)" by code_simp
  have h2: "(0::rat) \<le> 1 - 1 / 2 ^ 53" by simp
  have h3: "(1 - 1 / 2 ^ 53 :: rat) < 1" by simp
  have v: "generate_otp (1 - 1 / 2 ^ 53) = ''999999''" by code_simp
  from generate_otp_six_digits[OF h1 h2 h3] h1 h2 h3 v show ?thesis
    by (simp only: list_all_iff) blast
qed

section \<open>Properties of \<^verbatim>\<open>otpStore\<close>\<close>

lemma otp_invariant_empty: "otp_invariant []"
  by (simp add: otp_invariant_def)

lemma set_update_subset: "set (AList.update k v obj) \<subseteq> insert (k, v) (set obj)"
  by (induction obj) auto

lemma otp_invariant_js_set:
  assumes "otp_invariant obj" and "v \<noteq> []"
  shows "otp_invariant (js_set obj k v)"
proof (cases "k = ''__proto__''")
  case True
  with assms(1) show ?thesis by (simp add: js_set_def)
next
  case False
  have d: "distinct (map fst (AList.update k v obj))"
    using assms(1) by (simp add: otp_invariant_def distinct_update)
  have "set (AList.update k v obj) \<subseteq> insert (k, v) (set obj)"
    by (rule set_update_subset)
  with assms have "\<forall>(k', v') \<in> set (AList.update k v obj). v' \<noteq> []"
    by (auto simp: otp_invariant_def)
  with d False show ?thesis by (simp add: js_set_def otp_invariant_def)
qed

lemma otp_invariant_js_delete:
  assumes "otp_invariant obj"
  shows "otp_invariant (js_delete obj k)"
proof -
  have "set (AList.delete k obj) \<subseteq> set obj" by (auto simp: AList.delete_eq)
  with assms show ?thesis
    by (auto simp: js_delete_def otp_invariant_def distinct_delete)
qed

lemma otp_invariant_truthy:
  assumes "otp_invariant obj" and "map_of obj k = Some v"
  shows "truthy (js_get obj k)"
proof -
  from assms(2) have "(k, v) \<in> set obj" by (rule map_of_SomeD)
  with assms(1) have "v \<noteq> []" by (auto simp: otp_invariant_def)
  with assms(2) show ?thesis by (simp add: js_get_def)
qed

lemma map_of_js_set:
  "k \<noteq> ''__proto__'' \<Longrightarrow> map_of (js_set obj k v) = (map_of obj)(k \<mapsto> v)"
  by (simp add: js_set_def update_conv')

lemma map_of_js_delete: "map_of (js_delete obj k) = (map_of obj)(k := None)"
  by (simp add: js_delete_def delete_conv')

lemma js_get_own: "map_of obj k = Some v \<Longrightarrow> js_get obj k = JString v"
  by (simp add: js_get_def)

lemma js_get_eq_JString: "js_get obj k = JString v \<longleftrightarrow> map_of obj k = Some v"
  by (auto simp: js_get_def split: option.splits)

lemma js_get_absent:
  "map_of obj k = None \<Longrightarrow> k \<notin> set object_prototype_keys \<Longrightarrow> js_get obj k = JUndefined"
  by (simp add: js_get_def)

lemma js_get_inherited:
  "map_of obj k = None \<Longrightarrow> k \<in> set object_prototype_keys \<Longrightarrow> js_get obj k = JBuiltin k"
  by (simp add: js_get_def)

lemma count_own_property:
  assumes "distinct (map fst obj)"
  shows "length (filter (\<lambda>(k', v). k' = k) obj) \<le> 1"
  using assms
proof (induction obj)
  case Nil
  then show ?case by simp
next
  case (Cons p obj)
  obtain k' v' where p: "p = (k', v')" by (cases p)
  show ?case
  proof (cases "k' = k")
    case True
    with Cons.prems p have "k \<notin> fst ` set obj" by simp
    then have "filter (\<lambda>(k', v). k' = k) obj = []" by (force simp: filter_empty_conv)
    with True p show ?thesis by simp
  next
    case False
    with Cons p show ?thesis by simp
  qed
qed

section \<open>Password recovery\<close>

lemma verify_otp_state: "fst (verify_otp s em otp) = s"
  by (simp add: verify_otp_def)

lemma verify_attempts_state: "verify_attempts s em otps = s"
  unfolding verify_attempts_def
  by (induction otps arbitrary: s) (simp_all add: verify_otp_state)

lemma forgot_password_issue_found:
  assumes "findOne_email (users s) em = Some u"
  shows "forgot_password_issue E s em r =
           Inr (s\<lparr>otpStore := js_set (otpStore s) em (generate_otp r)\<rparr>,
                \<lparr>mail_from = E, mail_to = em, mail_subject = ''Your OTP for Password Reset'',
                 mail_text = ''Your OTP is: '' @ generate_otp r\<rparr>)"
  using assms by (simp add: forgot_password_issue_def Let_def)

lemma forgot_password_state:
  assumes "findOne_email (users s) em = Some u"
  shows "fst (forgot_password E sendMail s em r) =
           s\<lparr>otpStore := js_set (otpStore s) em (generate_otp r)\<rparr>"
  by (simp add: forgot_password_def forgot_password_issue_found[OF assms])

lemma forgot_password_unknown:
  assumes "findOne_email (users s) em = None"
  shows "forgot_password E sendMail s em r = (s, Render ''forgot-password'' [''Email not found''])"
  using assms by (simp add: forgot_password_def forgot_password_issue_def)

lemma forgot_password_invariant:
  assumes "otp_invariant (otpStore s)"
  shows "otp_invariant (otpStore (fst (forgot_password E sendMail s em r)))"
proof (cases "findOne_email (users s) em")
  case None
  with assms show ?thesis by (simp add: forgot_password_unknown)
next
  case (Some u)
  with assms show ?thesis
    by (simp add: forgot_password_state otp_invariant_js_set generate_otp_nonempty)
qed

lemma reset_password_invariant:
  assumes "otp_invariant (otpStore s)"
  shows "otp_invariant (otpStore (fst (reset_password H now s em pw)))"
  using assms by (simp add: reset_password_def Let_def otp_invariant_js_delete)

lemma register_otpStore: "otpStore (fst (register isEmail H oid now s un em pw ph pr)) = otpStore s"
  by (simp add: register_def Let_def split: option.splits sum.splits)

lemma update_user_otpStore: "otpStore (fst (update_user now s rid un ph pr)) = otpStore s"
  by (simp add: update_user_def split: option.splits sum.splits prod.splits)

lemma reachable_otp_invariant: "reachable s \<Longrightarrow> otp_invariant (otpStore s)"
proof (induction rule: reachable.induct)
  case (start c)
  show ?case by (simp add: otp_invariant_empty)
next
  case (step_register s isEmail H oid now un em pw ph pr)
  then show ?case by (simp add: register_otpStore)
next
  case (step_update_user s now rid uno pho pro)
  then show ?case by (simp add: update_user_otpStore)
next
  case (step_forgot_password s E sendMail em r)
  from step_forgot_password.IH show ?case by (rule forgot_password_invariant)
next
  case (step_verify_otp s em otp)
  then show ?case by (simp add: verify_otp_state)
next
  case (step_reset_password s H now em pw)
  from step_reset_password.IH show ?case by (rule reset_password_invariant)
qed

lemma reachable_at_most_one_code:
  "reachable s \<Longrightarrow> length (filter (\<lambda>(k, v). k = em) (otpStore s)) \<le> 1"
proof -
  assume "reachable s"
  then have "otp_invariant (otpStore s)" by (rule reachable_otp_invariant)
  then have "distinct (map fst (otpStore s))" by (simp add: otp_invariant_def)
  then show ?thesis by (rule count_own_property)
qed

lemma reset_password_no_entry:
  assumes "map_of (otpStore s) em = None" and "em \<notin> set object_prototype_keys"
  shows "reset_password H now s em pw = (s, Render ''reset-password'' [''OTP expired or invalid''])"
  using assms by (simp add: reset_password_def js_get_absent)

lemma reset_password_entry:
  assumes "otp_invariant (otpStore s)" and "map_of (otpStore s) em = Some code"
  shows "reset_password H now s em pw =
           (s\<lparr>users := updateOne_password (users s) now em (H pw),
              otpStore := js_delete (otpStore s) em\<rparr>,
            Redirect ''/users/login'')"
  using otp_invariant_truthy[OF assms] by (simp add: reset_password_def Let_def)

lemma exactly_one_entry:
  assumes "distinct (map fst obj)" and "map_of obj k = Some v"
  shows "length (filter (\<lambda>(k', v). k' = k) obj) = 1"
proof -
  from assms(2) have "(k, v) \<in> set obj" by (rule map_of_SomeD)
  then have "(k, v) \<in> set (filter (\<lambda>(k', v). k' = k) obj)" by simp
  then have "0 < length (filter (\<lambda>(k', v). k' = k) obj)" by (rule length_pos_if_in_set)
  with count_own_property[OF assms(1), of k] show ?thesis by linarith
qed

lemma verify_otp_string:
  "snd (verify_otp s em (JString code)) =
     (if map_of (otpStore s) em = Some code then Render ''reset-password'' []
      else Render ''verify-otp'' [''Invalid OTP''])"
  by (auto simp: verify_otp_def strict_neq_def js_get_eq_JString)

lemma findOne_email_updateOne_password:
  assumes "findOne_email c em = Some u"
  shows "findOne_email (updateOne_password c now em hp) em =
           Some (u\<lparr>password := set_password hp, updatedAt := now\<rparr>)"
  using assms unfolding findOne_email_def updateOne_password_def
  by (induction c) (auto split: if_splits)

lemma reset_password_twice:
  assumes "otp_invariant (otpStore s)" and "map_of (otpStore s) em = Some code"
    and "em \<notin> set object_prototype_keys"
  shows "snd (reset_password H' now' (fst (reset_password H now s em pw)) em pw') =
           Render ''reset-password'' [''OTP expired or invalid'']"
proof -
  have "map_of (otpStore (fst (reset_password H now s em pw))) em = None"
    by (simp add: reset_password_entry[OF assms(1,2)] map_of_js_delete)
  from reset_password_no_entry[OF this assms(3)] show ?thesis by simp
qed

text \<open>
  C1 says that /reset-password refuses every address without a pending code, and that after a
  reset the code is gone, so that the next reset for the address is refused. The handler tests
  \<^verbatim>\<open>!otpStore[email]\<close>, and the read falls through to \<^verbatim>\<open>Object.prototype\<close>: for the address
  \<^verbatim>\<open>constructor\<close> it yields the function \<^verbatim>\<open>Object\<close>, which is truthy. With no pending entry at
  all the handler hashes the password, runs the update (which matches no user), deletes
  nothing and redirects to the login page, and does the same on the next request. For a key
  that \<^verbatim>\<open>Object.prototype\<close> does not have, the handler does what C1 says:
  \<open>reset_password_no_entry\<close>, \<open>reset_password_entry\<close>, \<open>reset_password_twice\<close>.
\<close>

theorem reset_password_inherited_key:
  "map_of (otpStore example_app) ''constructor'' = None \<and>
   reset_password example_hash 2000 example_app ''constructor'' ''hunter22'' =
     (example_app, Redirect ''/users/login'') \<and>
   reset_password example_hash 3000
       (fst (reset_password example_hash 2000 example_app ''constructor'' ''hunter22''))
       ''constructor'' ''hunter23'' =
     (example_app, Redirect ''/users/login'')"
  by code_simp

text \<open>
  C2, as stated, fails when two draws give the same code: the draws \<open>0\<close> and \<open>2\<^sup>-\<^sup>3\<^sup>0\<close> both
  yield \<^verbatim>\<open>100000\<close>, so after the second request the code issued by the first still verifies.
\<close>

theorem first_code_still_valid_counterexample:
  "(0::rat) \<noteq> 1 / 2 ^ 30 \<and> is_double 0 \<and> is_double (1 / 2 ^ 30) \<and>
   generate_otp 0 = ''100000'' \<and> generate_otp (1 / 2 ^ 30) = ''100000'' \<and>
   snd (verify_otp
          (fst (forgot_password ''noreply@x.com'' (\<lambda>m. True)
                  (fst (forgot_password ''noreply@x.com'' (\<lambda>m. True) example_app ''ann@x.com'' 0))
                  ''ann@x.com'' (1 / 2 ^ 30)))
          ''ann@x.com'' (JString (generate_otp 0)))
     = Render ''reset-password'' []"
  by code_simp

text \<open>
  C2, amended. \<^verbatim>\<open>otpStore\<close> is keyed by the address as the request submits it. Under one
  such string it holds at most one pending code, and a new request that submits the same
  string overwrites it: after two consecutive requests that submit the same string, the address
  of a user, the object has exactly one own property for that string, a code submitted with
  that string verifies exactly when it is the code of the second request, and the code of the
  first request is refused whenever it differs from the second. The hypothesis on \<^verbatim>\<open>otpStore\<close>
  holds in every reachable state (\<open>reachable_otp_invariant\<close>, and
  \<open>reachable_at_most_one_code\<close> for the bound at any time). No user's address is
  \<^verbatim>\<open>__proto__\<close>, since registration requires \<^verbatim>\<open>isEmail\<close>; an assignment to that key would not
  create a property.
\<close>

theorem second_request_overwrites:
  assumes "otp_invariant (otpStore s)" and "findOne_email (users s) em = Some u"
    and "em \<noteq> ''__proto__''"
  shows "let s1 = fst (forgot_password E send1 s em r1);
             s2 = fst (forgot_password E send2 s1 em r2)
         in otp_invariant (otpStore s2) \<and>
            (\<forall>k. length (filter (\<lambda>(k', v). k' = k) (otpStore s2)) \<le> 1) \<and>
            length (filter (\<lambda>(k, v). k = em) (otpStore s2)) = 1 \<and>
            map_of (otpStore s2) em = Some (generate_otp r2) \<and>
            (\<forall>code. snd (verify_otp s2 em (JString code)) = Render ''reset-password'' []
                      \<longleftrightarrow> code = generate_otp r2) \<and>
            (generate_otp r1 \<noteq> generate_otp r2 \<longrightarrow>
               snd (verify_otp s2 em (JString (generate_otp r1))) =
                 Render ''verify-otp'' [''Invalid OTP''])"
proof -
  define s1 where "s1 = fst (forgot_password E send1 s em r1)"
  define s2 where "s2 = fst (forgot_password E send2 s1 em r2)"
  have s1: "s1 = s\<lparr>otpStore := js_set (otpStore s) em (generate_otp r1)\<rparr>"
    unfolding s1_def using assms(2) by (rule forgot_password_state)
  then have u1: "findOne_email (users s1) em = Some u" using assms(2) by simp
  have s2: "s2 = s1\<lparr>otpStore := js_set (otpStore s1) em (generate_otp r2)\<rparr>"
    unfolding s2_def using u1 by (rule forgot_password_state)
  have i1: "otp_invariant (otpStore s1)"
    unfolding s1_def using assms(1) by (rule forgot_password_invariant)
  have i2: "otp_invariant (otpStore s2)"
    unfolding s2_def using i1 by (rule forgot_password_invariant)
  have m: "map_of (otpStore s2) em = Some (generate_otp r2)"
    using assms(3) by (simp add: s2 map_of_js_set)
  have d: "distinct (map fst (otpStore s2))" using i2 by (simp add: otp_invariant_def)
  have one: "length (filter (\<lambda>(k, v). k = em) (otpStore s2)) = 1"
    using d m by (rule exactly_one_entry)
  have v: "snd (verify_otp s2 em (JString code)) = Render ''reset-password'' []
             \<longleftrightarrow> code = generate_otp r2" for code
    by (auto simp: verify_otp_string m)
  have w: "generate_otp r1 \<noteq> generate_otp r2 \<longrightarrow>
             snd (verify_otp s2 em (JString (generate_otp r1))) =
               Render ''verify-otp'' [''Invalid OTP'']"
    by (simp add: verify_otp_string m)
  have most: "\<forall>k. length (filter (\<lambda>(k', v). k' = k) (otpStore s2)) \<le> 1"
    using count_own_property[OF d] by blast
  from i2 most one m v w show ?thesis
    unfolding Let_def s1_def[symmetric] s2_def[symmetric] by blast
qed

theorem second_request_overwrites_witness:
  "otp_invariant (otpStore example_app) \<and>
   findOne_email (users example_app) ''ann@x.com'' = Some example_user \<and>
   ''ann@x.com'' \<noteq> ''__proto__'' \<and>
   generate_otp 0 = ''100000'' \<and> generate_otp (1 / 2) = ''550000'' \<and>
   map_of (otpStore
      (fst (forgot_password ''noreply@x.com'' (\<lambda>m. True)
              (fst (forgot_password ''noreply@x.com'' (\<lambda>m. False) example_app ''ann@x.com'' 0))
              ''ann@x.com'' (1 / 2)))) ''ann@x.com'' = Some ''550000'' \<and>
   snd (verify_otp
      (fst (forgot_password ''noreply@x.com'' (\<lambda>m. True)
              (fst (forgot_password ''noreply@x.com'' (\<lambda>m. False) example_app ''ann@x.com'' 0))
              ''ann@x.com'' (1 / 2))) ''ann@x.com'' (JString ''100000''))
     = Render ''verify-otp'' [''Invalid OTP'']"
proof -
  have h1: "otp_invariant (otpStore example_app)" by code_simp
  have h2: "findOne_email (users example_app) ''ann@x.com'' = Some example_user" by code_simp
  have h3: "''ann@x.com'' \<noteq> ''__proto__''" by simp
  have g1: "generate_otp 0 = ''100000''" by code_simp
  have g2: "generate_otp (1 / 2) = ''550000''" by code_simp
  from second_request_overwrites[OF h1 h2 h3, where E = "''noreply@x.com''" and ?send1.0 = "\<lambda>m. False"
        and ?send2.0 = "\<lambda>m. True" and ?r1.0 = 0 and ?r2.0 = "1 / 2"]
  show ?thesis using h1 h2 g1 g2 by (simp add: Let_def)
qed

text \<open>
  Two requests for one user under two spellings of the address. The lookup of the user goes
  through the setters of the schema, the key of \<^verbatim>\<open>otpStore\<close> does not: both requests find the
  user, and each leaves a code under its own spelling.
\<close>

lemma forgot_password_two_spellings:
  "otpStore (fst (forgot_password ''noreply@x.com'' (\<lambda>m. True)
                    (fst (forgot_password ''noreply@x.com'' (\<lambda>m. True) example_app ''ann@x.com'' 0))
                    ''ANN@x.com'' (1 / 2))) =
     [(''ann@x.com'', ''100000''), (''ANN@x.com'', ''550000'')]"
  by code_simp

text \<open>
  /verify-otp leaves the state as it is, so a repeated request gets the same answer; and for a
  submitted string it shows the reset form exactly when \<^verbatim>\<open>otpStore\<close> has an own property for
  the address whose value is that string, and the message \<^verbatim>\<open>Invalid OTP\<close> otherwise.
\<close>

lemma verify_otp_submitted_string:
  "fst (verify_otp s em otp) = s \<and>
   verify_otp (fst (verify_otp s em otp)) em otp = verify_otp s em otp \<and>
   (snd (verify_otp s em (JString code)) = Render ''reset-password'' []
      \<longleftrightarrow> map_of (otpStore s) em = Some code) \<and>
   (snd (verify_otp s em (JString code)) = Render ''verify-otp'' [''Invalid OTP'']
      \<longleftrightarrow> map_of (otpStore s) em \<noteq> Some code)"
  by (simp add: verify_otp_state verify_otp_string)

text \<open>
  When the body has no field \<^verbatim>\<open>otp\<close>, the comparison \<^verbatim>\<open>otpStore[email] !== otp\<close> has
  \<^verbatim>\<open>undefined\<close> on its right: the handler shows the reset form exactly when the read of
  \<^verbatim>\<open>otpStore\<close> gives \<^verbatim>\<open>undefined\<close> too, that is when there is no entry for the address.
\<close>

lemma verify_otp_absent_field:
  "snd (verify_otp s em JUndefined) = Render ''reset-password'' []
     \<longleftrightarrow> map_of (otpStore s) em = None \<and> em \<notin> set object_prototype_keys"
  by (auto simp: verify_otp_def strict_neq_def js_get_def split: option.splits)

text \<open>
  C3 says that /verify-otp answers ok exactly when a pending entry exists for the address and
  its code equals the submitted one, and that it leaves the registry unchanged. The handler
  does leave the state unchanged, and for a submitted string it answers as C3 says
  (\<open>verify_otp_submitted_string\<close>). But it never checks that a code was submitted: for a
  body without the field \<^verbatim>\<open>otp\<close> and an address that has no entry, both sides of \<^verbatim>\<open>!==\<close> are
  \<^verbatim>\<open>undefined\<close>, and the handler shows the reset form although no entry exists; with an entry
  for the address the same request is refused.
\<close>

theorem verify_otp_absent_code:
  "map_of (otpStore example_app) ''bob@x.com'' = None \<and>
   verify_otp example_app ''bob@x.com'' JUndefined =
     (example_app, Render ''reset-password'' []) \<and>
   verify_otp (example_app\<lparr>otpStore := [(''ann@x.com'', ''550000'')]\<rparr>) ''ann@x.com'' JUndefined =
     (example_app\<lparr>otpStore := [(''ann@x.com'', ''550000'')]\<rparr>,
      Render ''verify-otp'' [''Invalid OTP''])"
  by code_simp

text \<open>
  C6. On a request for the address of a user, the handler has written the code into
  \<^verbatim>\<open>otpStore\<close> when it reaches \<^verbatim>\<open>await transporter.sendMail\<close>, with the message that carries the
  code; when the transporter fails the handler ends there, and the state it leaves still
  holds the code. (As for C2, no user's address is \<^verbatim>\<open>__proto__\<close>. What the runtime does with
  the rejected promise of the handler is not part of the route and is not modelled.)
\<close>

theorem forgot_password_keeps_code:
  assumes "findOne_email (users s) em = Some u" and "em \<noteq> ''__proto__''"
  shows "\<exists>s' m. forgot_password_issue E s em r = Inr (s', m) \<and>
           map_of (otpStore s') em = Some (generate_otp r) \<and>
           mail_to m = em \<and> mail_text m = ''Your OTP is: '' @ generate_otp r \<and>
           forgot_password E sendMail s em r =
             (s', if sendMail m then Render ''verify-otp'' [] else Rejected) \<and>
           map_of (otpStore (fst (forgot_password E (\<lambda>m. False) s em r))) em =
             Some (generate_otp r)"
  using assms(2)
  by (simp add: forgot_password_def forgot_password_issue_found[OF assms(1)] map_of_js_set)

theorem forgot_password_keeps_code_witness:
  "findOne_email (users example_app) ''ann@x.com'' = Some example_user \<and>
   ''ann@x.com'' \<noteq> ''__proto__'' \<and>
   forgot_password ''noreply@x.com'' (\<lambda>m. False) example_app ''ann@x.com'' (1 / 2) =
     (example_app\<lparr>otpStore := [(''ann@x.com'', ''550000'')]\<rparr>, Rejected)"
proof -
  have h1: "findOne_email (users example_app) ''ann@x.com'' = Some example_user" by code_simp
  have h2: "''ann@x.com'' \<noteq> ''__proto__''" by simp
  have g: "generate_otp (1 / 2) = ''550000''" by code_simp
  have e: "otpStore example_app = []" by (simp add: example_app_def)
  from forgot_password_keeps_code[OF h1 h2, where E = "''noreply@x.com''" and r = "1 / 2"
        and sendMail = "\<lambda>m. False"]
  obtain s' m where
    "forgot_password_issue ''noreply@x.com'' example_app ''ann@x.com'' (1 / 2) = Inr (s', m)"
    and "forgot_password ''noreply@x.com'' (\<lambda>m. False) example_app ''ann@x.com'' (1 / 2) =
           (s', Rejected)"
    by auto
  moreover have "forgot_password_issue ''noreply@x.com'' example_app ''ann@x.com'' (1 / 2) =
      Inr (example_app\<lparr>otpStore := [(''ann@x.com'', ''550000'')]\<rparr>,
           \<lparr>mail_from = ''noreply@x.com'', mail_to = ''ann@x.com'',
            mail_subject = ''Your OTP for Password Reset'',
            mail_text = ''Your OTP is: 550000''\<rparr>)"
    by (simp add: forgot_password_issue_found[OF h1] g e js_set_def)
  ultimately show ?thesis using h1 h2 by simp
qed

text \<open>
  C10. /reset-password does not ask whether the code was ever verified: when \<^verbatim>\<open>otpStore\<close>
  holds a code for the address, the reset goes through after any run of /verify-otp requests
  for it, none at all or all of them refused, and sets the password of the user with that address.
\<close>

theorem reset_password_without_verification:
  assumes "otp_invariant (otpStore s)" and "map_of (otpStore s) em = Some code"
  shows "reset_password H now (verify_attempts s em otps) em pw =
           (s\<lparr>users := updateOne_password (users s) now em (H pw),
              otpStore := js_delete (otpStore s) em\<rparr>,
            Redirect ''/users/login'')"
  by (simp only: verify_attempts_state reset_password_entry[OF assms])

theorem reset_password_without_verification_witness:
  "otp_invariant [(''ann@x.com'', ''550000'')] \<and>
   snd (verify_otp (example_app\<lparr>otpStore := [(''ann@x.com'', ''550000'')]\<rparr>) ''ann@x.com''
          (JString ''123456'')) = Render ''verify-otp'' [''Invalid OTP''] \<and>
   reset_password example_hash 2000
       (verify_attempts (example_app\<lparr>otpStore := [(''ann@x.com'', ''550000'')]\<rparr>) ''ann@x.com''
          [JString ''123456'', JUndefined])
       ''ann@x.com'' ''hunter22'' =
     (\<lparr>users = [example_user\<lparr>password := example_hash ''hunter22'', updatedAt := 2000\<rparr>],
       otpStore = []\<rparr>,
      Redirect ''/users/login'')"
proof -
  have h1: "otp_invariant (otpStore (example_app\<lparr>otpStore := [(''ann@x.com'', ''550000'')]\<rparr>))"
    by code_simp
  have h2: "map_of (otpStore (example_app\<lparr>otpStore := [(''ann@x.com'', ''550000'')]\<rparr>))
              ''ann@x.com'' = Some ''550000''"
    by simp
  have v: "snd (verify_otp (example_app\<lparr>otpStore := [(''ann@x.com'', ''550000'')]\<rparr>) ''ann@x.com''
          (JString ''123456'')) = Render ''verify-otp'' [''Invalid OTP'']"
    by code_simp
  have u: "(example_app\<lparr>otpStore := [(''ann@x.com'', ''550000'')]\<rparr>)
      \<lparr>users := updateOne_password (users (example_app\<lparr>otpStore := [(''ann@x.com'', ''550000'')]\<rparr>))
                  2000 ''ann@x.com'' (example_hash ''hunter22''),
       otpStore := js_delete (otpStore (example_app\<lparr>otpStore := [(''ann@x.com'', ''550000'')]\<rparr>))
                  ''ann@x.com''\<rparr> =
     \<lparr>users = [example_user\<lparr>password := example_hash ''hunter22'', updatedAt := 2000\<rparr>],
       otpStore = []\<rparr>"
    by code_simp
  from reset_password_without_verification[OF h1 h2, where H = example_hash and now = 2000
        and otps = "[JString ''123456'', JUndefined]" and pw = "''hunter22''"]
  show ?thesis using h1 v u by simp
qed

section \<open>Login\<close>

lemma login_valid:
  assumes "isEmail (trim em)" and "5 \<le> length (trim pw)"
  shows "login isEmail cmp s em pw =
           (case findOne_email (users s) (trim em) of
              None \<Rightarrow> Json 400 ''Email or password is incorrect!''
            | Some u \<Rightarrow>
                if \<not> cmp (trim pw) (password u) then Json 400 ''Email or password is incorrect!''
                else Json 200 ''Login successful'')"
  using assms by (simp add: login_def)

text \<open>
  For requests that pass validation, /login answers an address that no user has and a password
  that does not match the stored hash in the same way.
\<close>

lemma login_validated_failures:
  assumes "isEmail (trim em1)" and "5 \<le> length (trim pw1)"
    and "findOne_email (users s1) (trim em1) = None"
    and "isEmail (trim em2)" and "5 \<le> length (trim pw2)"
    and "findOne_email (users s2) (trim em2) = Some u"
    and "\<not> cmp (trim pw2) (password u)"
  shows "login isEmail cmp s1 em1 pw1 = login isEmail cmp s2 em2 pw2 \<and>
         login isEmail cmp s1 em1 pw1 = Json 400 ''Email or password is incorrect!'' \<and>
         login isEmail cmp s2 em2 pw2 = Json 400 ''Email or password is incorrect!''"
  using assms(3,6,7)
  by (simp add: login_valid[where isEmail = isEmail, OF assms(1,2)]
      login_valid[where isEmail = isEmail, OF assms(4,5)])

lemma login_invalid:
  "\<not> (isEmail (trim em) \<and> 5 \<le> length (trim pw)) \<Longrightarrow>
   login isEmail cmp s em pw =
     Json 400 (if \<not> isEmail (trim em) then ''Enter valid email'' else ''Enter valid password'')"
  by (auto simp: login_def)

lemma login_cases:
  "login isEmail cmp s em pw = Json 200 ''Login successful'' \<or>
   login isEmail cmp s em pw =
     Json 400 (if \<not> isEmail (trim em) then ''Enter valid email''
               else if length (trim pw) < 5 then ''Enter valid password''
               else ''Email or password is incorrect!'')"
proof (cases "isEmail (trim em) \<and> 5 \<le> length (trim pw)")
  case True
  then have "login isEmail cmp s em pw =
           (case findOne_email (users s) (trim em) of
              None \<Rightarrow> Json 400 ''Email or password is incorrect!''
            | Some u \<Rightarrow>
                if \<not> cmp (trim pw) (password u) then Json 400 ''Email or password is incorrect!''
                else Json 200 ''Login successful'')"
    by (simp add: login_valid[where isEmail = isEmail])
  with True show ?thesis by (auto split: option.splits)
next
  case False
  from login_invalid[where isEmail = isEmail, OF this] False show ?thesis by auto
qed

text \<open>
  C4, as stated, fails for a login attempt that does not pass the validators of the route: for
  an address that no user has and a password of three characters the answer is the message
  of the validator, not the message for wrong credentials that a wrong password for a known
  address gets.
\<close>

theorem login_validation_message_counterexample:
  "findOne_email (users example_app) (trim ''bob@x.com'') = None \<and>
   login example_isEmail example_compare example_app ''bob@x.com'' ''abc'' =
     Json 400 ''Enter valid password'' \<and>
   findOne_email (users example_app) (trim ''ann@x.com'') = Some example_user \<and>
   \<not> example_compare (trim ''guess1'') (password example_user) \<and>
   login example_isEmail example_compare example_app ''ann@x.com'' ''guess1'' =
     Json 400 ''Email or password is incorrect!'' \<and>
   login example_isEmail example_compare example_app ''bob@x.com'' ''abc'' \<noteq>
     login example_isEmail example_compare example_app ''ann@x.com'' ''guess1''"
  by code_simp

text \<open>
  C4, amended. For every login attempt, in every state: the answer is never status 404; an
  attempt that does not succeed gets an answer that the submitted address and password alone
  determine (the message of the first failing validator or, when both validators pass, status
  400 with \<^verbatim>\<open>Email or password is incorrect!\<close>), so the same attempt fails in the same way in any
  two states; and an attempt that passes the validators gets that one message both when no
  user has the address and when the user exists but the password does not match the stored
  hash.
\<close>

theorem login_failure_hides_cause:
  "(\<forall>m. login isEmail cmp s em pw \<noteq> Json 404 m) \<and>
   (login isEmail cmp s em pw = Json 200 ''Login successful'' \<or>
    login isEmail cmp s em pw =
      Json 400 (if \<not> isEmail (trim em) then ''Enter valid email''
                else if length (trim pw) < 5 then ''Enter valid password''
                else ''Email or password is incorrect!'')) \<and>
   (login isEmail cmp s em pw \<noteq> Json 200 ''Login successful'' \<longrightarrow>
    login isEmail cmp s' em pw \<noteq> Json 200 ''Login successful'' \<longrightarrow>
    login isEmail cmp s em pw = login isEmail cmp s' em pw) \<and>
   (isEmail (trim em) \<longrightarrow> 5 \<le> length (trim pw) \<longrightarrow>
    findOne_email (users s) (trim em) = None \<longrightarrow>
    login isEmail cmp s em pw = Json 400 ''Email or password is incorrect!'') \<and>
   (isEmail (trim em) \<longrightarrow> 5 \<le> length (trim pw) \<longrightarrow>
    (\<forall>u. findOne_email (users s) (trim em) = Some u \<longrightarrow> \<not> cmp (trim pw) (password u) \<longrightarrow>
         login isEmail cmp s em pw = Json 400 ''Email or password is incorrect!''))"
proof -
  have c: "login isEmail cmp t em pw = Json 200 ''Login successful'' \<or>
    login isEmail cmp t em pw =
      Json 400 (if \<not> isEmail (trim em) then ''Enter valid email''
                else if length (trim pw) < 5 then ''Enter valid password''
                else ''Email or password is incorrect!'')" for t
    by (rule login_cases)
  have 1: "\<forall>m. login isEmail cmp s em pw \<noteq> Json 404 m"
    using c[of s] by auto
  have 3: "login isEmail cmp s em pw \<noteq> Json 200 ''Login successful'' \<longrightarrow>
    login isEmail cmp s' em pw \<noteq> Json 200 ''Login successful'' \<longrightarrow>
    login isEmail cmp s em pw = login isEmail cmp s' em pw"
    using c[of s] c[of s'] by auto
  have 4: "isEmail (trim em) \<longrightarrow> 5 \<le> length (trim pw) \<longrightarrow>
    findOne_email (users s) (trim em) = None \<longrightarrow>
    login isEmail cmp s em pw = Json 400 ''Email or password is incorrect!''"
    by (simp add: login_valid[where isEmail = isEmail])
  have 5: "isEmail (trim em) \<longrightarrow> 5 \<le> length (trim pw) \<longrightarrow>
    (\<forall>u. findOne_email (users s) (trim em) = Some u \<longrightarrow> \<not> cmp (trim pw) (password u) \<longrightarrow>
         login isEmail cmp s em pw = Json 400 ''Email or password is incorrect!'')"
    by (simp add: login_valid[where isEmail = isEmail])
  from 1 c[of s] 3 4 5 show ?thesis by blast
qed

theorem login_failure_hides_cause_witness:
  "example_isEmail (trim ''ann@x.com'') \<and> 5 \<le> length (trim ''guess1'') \<and>
   findOne_email (users (example_app\<lparr>users := []\<rparr>)) (trim ''ann@x.com'') = None \<and>
   findOne_email (users example_app) (trim ''ann@x.com'') = Some example_user \<and>
   \<not> example_compare (trim ''guess1'') (password example_user) \<and>
   login example_isEmail example_compare (example_app\<lparr>users := []\<rparr>) ''ann@x.com'' ''guess1'' =
     Json 400 ''Email or password is incorrect!'' \<and>
   login example_isEmail example_compare example_app ''ann@x.com'' ''guess1'' =
     Json 400 ''Email or password is incorrect!'' \<and>
   login example_isEmail example_compare example_app ''ann@x.com'' ''secret'' =
     Json 200 ''Login successful''"
proof -
  have a1: "example_isEmail (trim ''ann@x.com'')" by code_simp
  have a2: "5 \<le> length (trim ''guess1'')" by code_simp
  have a3: "findOne_email (users (example_app\<lparr>users := []\<rparr>)) (trim ''ann@x.com'') = None"
    by code_simp
  have b3: "findOne_email (users example_app) (trim ''ann@x.com'') = Some example_user"
    by code_simp
  have b4: "\<not> example_compare (trim ''guess1'') (password example_user)" by code_simp
  have ok: "login example_isEmail example_compare example_app ''ann@x.com'' ''secret'' =
     Json 200 ''Login successful''" by code_simp
  from login_failure_hides_cause[where isEmail = example_isEmail and cmp = example_compare
      and s = "example_app\<lparr>users := []\<rparr>" and em = "''ann@x.com''" and pw = "''guess1''"]
    a1 a2 a3
  have n: "login example_isEmail example_compare (example_app\<lparr>users := []\<rparr>) ''ann@x.com''
             ''guess1'' = Json 400 ''Email or password is incorrect!''"
    by blast
  from login_failure_hides_cause[where isEmail = example_isEmail and cmp = example_compare
      and s = example_app and em = "''ann@x.com''" and pw = "''guess1''"]
    a1 a2 b3 b4
  have w: "login example_isEmail example_compare example_app ''ann@x.com'' ''guess1'' =
             Json 400 ''Email or password is incorrect!''"
    by blast
  from a1 a2 a3 b3 b4 n w ok show ?thesis by simp
qed

section \<open>The unique indexes\<close>

text \<open>
  C5, as stated, fails for the phone number: the collection accepts a second document with
  the phone number of the first.
\<close>

theorem create_same_phone_counterexample:
  "phone example_user = set_phone ''5550100200'' \<and>
   create (users example_app) 2 2000 ''bob'' ''bob@x.com'' (example_hash ''secret2'')
       ''5550100200'' ''baker'' =
     Inr [example_user,
          \<lparr>uid = 2, username = ''bob'', email = ''bob@x.com'', password = example_hash ''secret2'',
           phone = ''5550100200'', profession = ''baker'', createdAt = 2000, updatedAt = 2000\<rparr>]"
  by code_simp

text \<open>
  C5, amended. The collection enforces uniqueness for \<^verbatim>\<open>email\<close> and \<^verbatim>\<open>username\<close> (and \<^verbatim>\<open>_id\<close>), not
  for \<^verbatim>\<open>phone\<close>: a \<^verbatim>\<open>create\<close> whose document passes the validators of the schema fails with the
  duplicate key error exactly when a stored document has the same email, the same username or
  the same id, whatever the phone numbers are. A known phone number is refused one level up:
  /register looks for a user with the email or the phone before it calls \<^verbatim>\<open>create\<close>.
\<close>

theorem create_duplicate_key:
  assumes "validate \<lparr>uid = oid, username = set_username un, email = set_email em,
                     password = set_password pw, phone = set_phone ph,
                     profession = set_profession pr, createdAt = now, updatedAt = now\<rparr>"
  shows "(create c oid now un em pw ph pr = Inl DuplicateKey \<longleftrightarrow>
            (\<exists>v \<in> set c. email v = set_email em \<or> username v = set_username un \<or> uid v = oid)) \<and>
         (register_errors isEmail un em pw ph pr = [] \<longrightarrow>
            (\<exists>v \<in> set (users s). email v = set_email (trim em) \<or> phone v = set_phone (trim ph)) \<longrightarrow>
            register isEmail H oid now s un em pw ph pr =
              (s, Render ''register'' [''Email or phone already registered'']))"
proof -
  have 1: "create c oid now un em pw ph pr = Inl DuplicateKey \<longleftrightarrow>
            (\<exists>v \<in> set c. email v = set_email em \<or> username v = set_username un \<or> uid v = oid)"
    using assms by (auto simp: create_def index_conflict_def Let_def)
  have 2: "register isEmail H oid now s un em pw ph pr =
              (s, Render ''register'' [''Email or phone already registered''])"
    if e: "register_errors isEmail un em pw ph pr = []"
      and x: "\<exists>v \<in> set (users s). email v = set_email (trim em) \<or> phone v = set_phone (trim ph)"
  proof -
    from x have "findOne_email_or_phone (users s) (trim em) (trim ph) \<noteq> None"
      by (auto simp: findOne_email_or_phone_def find_None_iff)
    then obtain w where "findOne_email_or_phone (users s) (trim em) (trim ph) = Some w" by auto
    with e show ?thesis by (simp add: register_def)
  qed
  from 1 2 show ?thesis by blast
qed

theorem create_duplicate_key_witness:
  "validate \<lparr>uid = 2, username = set_username ''Bob'', email = set_email ''ANN@x.com'',
             password = set_password (example_hash ''secret2''), phone = set_phone ''5550100999'',
             profession = set_profession ''baker'', createdAt = 2000, updatedAt = 2000\<rparr> \<and>
   create (users example_app) 2 2000 ''Bob'' ''ANN@x.com'' (example_hash ''secret2'')
       ''5550100999'' ''baker'' = Inl DuplicateKey \<and>
   register_errors example_isEmail ''bob'' ''bob@x.com'' ''secret2'' ''5550100200'' ''baker'' = [] \<and>
   register example_isEmail example_hash 2 2000 example_app
       ''bob'' ''bob@x.com'' ''secret2'' ''5550100200'' ''baker'' =
     (example_app, Render ''register'' [''Email or phone already registered''])"
proof -
  have v: "validate \<lparr>uid = 2, username = set_username ''Bob'', email = set_email ''ANN@x.com'',
             password = set_password (example_hash ''secret2''), phone = set_phone ''5550100999'',
             profession = set_profession ''baker'', createdAt = 2000, updatedAt = 2000\<rparr>"
    by code_simp
  have d: "\<exists>v \<in> set (users example_app).
             email v = set_email ''ANN@x.com'' \<or> username v = set_username ''Bob'' \<or> uid v = 2"
    by code_simp
  have v': "validate \<lparr>uid = 2, username = set_username ''bob'', email = set_email ''bob@x.com'',
             password = set_password ''secret2'', phone = set_phone ''5550100200'',
             profession = set_profession ''baker'', createdAt = 2000, updatedAt = 2000\<rparr>"
    by code_simp
  have e: "register_errors example_isEmail ''bob'' ''bob@x.com'' ''secret2'' ''5550100200'' ''baker'' = []"
    by code_simp
  have x: "\<exists>v \<in> set (users example_app).
             email v = set_email (trim ''bob@x.com'') \<or> phone v = set_phone (trim ''5550100200'')"
    by code_simp
  from create_duplicate_key[OF v, where c = "users example_app"] d
  have "create (users example_app) 2 2000 ''Bob'' ''ANN@x.com'' (example_hash ''secret2'')
       ''5550100999'' ''baker'' = Inl DuplicateKey" by blast
  moreover from create_duplicate_key[OF v', where isEmail = example_isEmail and s = example_app
      and H = example_hash] e x
  have "register example_isEmail example_hash 2 2000 example_app
       ''bob'' ''bob@x.com'' ''secret2'' ''5550100200'' ''baker'' =
     (example_app, Render ''register'' [''Email or phone already registered''])" by blast
  ultimately show ?thesis using v e by simp
qed

section \<open>Listing and updating users\<close>

lemma select_exclude_absent: "map_of (select_exclude f d) f = None"
  by (induction d) (auto simp: select_exclude_def)

lemma select_exclude_other: "k \<noteq> f \<Longrightarrow> map_of (select_exclude f d) k = map_of d k"
  by (induction d) (auto simp: select_exclude_def)

lemma toObject_no_passwordHash: "map_of (toObject u) ''passwordHash'' = None"
  by (simp add: toObject_def)

text \<open>
  C8. GET / answers with one object per stored user, in order, each with the \<^verbatim>\<open>_id\<close> and every
  other stored field of its user except \<^verbatim>\<open>password\<close>: no object has a field \<^verbatim>\<open>password\<close> or
  \<^verbatim>\<open>passwordHash\<close>.
\<close>

theorem list_users_hides_password:
  "\<exists>docs. list_users s = JsonUsers 200 docs \<and> length docs = length (users s) \<and>
     (\<forall>i < length docs.
        map_of (docs ! i) ''password'' = None \<and> map_of (docs ! i) ''passwordHash'' = None \<and>
        ''password'' \<notin> fst ` set (docs ! i) \<and> ''passwordHash'' \<notin> fst ` set (docs ! i) \<and>
        (\<forall>k. k \<noteq> ''password'' \<longrightarrow> map_of (docs ! i) k = map_of (toObject (users s ! i)) k))"
  by (simp add: list_users_def select_exclude_absent select_exclude_other
      toObject_no_passwordHash map_of_eq_None_iff[symmetric])

theorem list_users_hides_password_witness:
  "list_users example_app =
     JsonUsers 200
       [[(''_id'', BObjectId 1), (''username'', BString ''ann''), (''email'', BString ''ann@x.com''),
         (''phone'', BString ''5550100200''), (''profession'', BString ''engineer''),
         (''createdAt'', BDate 1000), (''updatedAt'', BDate 1000), (''__v'', BInt32 0)]] \<and>
   map_of (toObject example_user) ''password'' = Some (BString (example_hash ''secret''))"
proof -
  have l: "list_users example_app =
     JsonUsers 200
       [[(''_id'', BObjectId 1), (''username'', BString ''ann''), (''email'', BString ''ann@x.com''),
         (''phone'', BString ''5550100200''), (''profession'', BString ''engineer''),
         (''createdAt'', BDate 1000), (''updatedAt'', BDate 1000), (''__v'', BInt32 0)]]"
    by code_simp
  have p: "map_of (toObject example_user) ''password'' = Some (BString (example_hash ''secret''))"
    by code_simp
  from list_users_hides_password[of example_app] l p show ?thesis by simp
qed

lemma length_update_first: "length (update_first P f xs) = length xs"
  by (induction xs) auto

lemma nth_update_first:
  assumes "find P xs = Some u" and "k < length xs"
  shows "update_first P (\<lambda>_. g u) xs ! k = xs ! k \<or>
         (xs ! k = u \<and> P u \<and> update_first P (\<lambda>_. g u) xs ! k = g u)"
  using assms
proof (induction xs arbitrary: k)
  case Nil
  then show ?case by simp
next
  case (Cons x xs)
  show ?case
  proof (cases "P x")
    case True
    with Cons.prems show ?thesis by (cases k) auto
  next
    case False
    with Cons show ?thesis by (cases k) auto
  qed
qed

lemma nth_update_first_other:
  "\<not> P (xs ! k) \<Longrightarrow> k < length xs \<Longrightarrow> update_first P f xs ! k = xs ! k"
proof (induction xs arbitrary: k)
  case Nil
  then show ?case by simp
next
  case (Cons x xs)
  then show ?case by (cases k) auto
qed

lemma apply_update_frame:
  "email (apply_update now un ph pr u) = email u \<and>
   password (apply_update now un ph pr u) = password u \<and>
   uid (apply_update now un ph pr u) = uid u \<and>
   createdAt (apply_update now un ph pr u) = createdAt u"
  by (simp add: apply_update_def)

text \<open>
  C9, as stated, fails for the field \<^verbatim>\<open>updatedAt\<close>, which the schema option \<^verbatim>\<open>timestamps: true\<close>
  sets on every update: an update that repeats the stored username, phone and profession still
  changes the document.
\<close>

theorem update_user_updatedAt_counterexample:
  "users (fst (update_user 2000 example_app (Some 1)
                 (Some ''ann'') (Some ''5550100200'') (Some ''engineer''))) =
     [example_user\<lparr>updatedAt := 2000\<rparr>] \<and>
   example_user\<lparr>updatedAt := 2000\<rparr> \<noteq> example_user"
  by code_simp

text \<open>
  C9, amended. For the id of a stored user, PUT /:id changes at most the fields \<^verbatim>\<open>username\<close>,
  \<^verbatim>\<open>phone\<close> and \<^verbatim>\<open>profession\<close> of that document and its \<^verbatim>\<open>updatedAt\<close>: the document's \<^verbatim>\<open>email\<close>,
  \<^verbatim>\<open>password\<close>, \<^verbatim>\<open>_id\<close> and \<^verbatim>\<open>createdAt\<close> are as before, every document with another id is as
  before, and so is \<^verbatim>\<open>otpStore\<close>.
\<close>

theorem update_user_frame:
  assumes "find (\<lambda>v. uid v = i) (users s) = Some u"
  shows "let s' = fst (update_user now s (Some i) un ph pr)
         in otpStore s' = otpStore s \<and> length (users s') = length (users s) \<and>
            (\<forall>k < length (users s).
               (uid (users s ! k) \<noteq> i \<longrightarrow> users s' ! k = users s ! k) \<and>
               (users s' ! k = users s ! k \<or>
                users s' ! k = (users s ! k)
                  \<lparr>username := (case un of None \<Rightarrow> username (users s ! k) | Some x \<Rightarrow> set_username x),
                   phone := (case ph of None \<Rightarrow> phone (users s ! k) | Some x \<Rightarrow> set_phone x),
                   profession :=
                     (case pr of None \<Rightarrow> profession (users s ! k) | Some x \<Rightarrow> set_profession x),
                   updatedAt := now\<rparr>) \<and>
               email (users s' ! k) = email (users s ! k) \<and>
               password (users s' ! k) = password (users s ! k) \<and>
               uid (users s' ! k) = uid (users s ! k) \<and>
               createdAt (users s' ! k) = createdAt (users s ! k))"
proof -
  define u' where "u' = apply_update now un ph pr u"
  define s' where "s' = fst (update_user now s (Some i) un ph pr)"
  define c' where "c' = update_first (\<lambda>v. uid v = i) (\<lambda>_. u') (users s)"
  have cases: "s' = s \<or> s' = s\<lparr>users := c'\<rparr>"
    using assms
    by (simp add: s'_def c'_def u'_def update_user_def findByIdAndUpdate_def Let_def)
  have same: "?thesis" if "s' = s"
    using that unfolding Let_def s'_def[symmetric] by simp
  have changed: "?thesis" if eq: "s' = s\<lparr>users := c'\<rparr>"
  proof -
    have len: "length (users s') = length (users s)"
      by (simp add: eq c'_def length_update_first)
    have row: "(uid (users s ! k) \<noteq> i \<longrightarrow> users s' ! k = users s ! k) \<and>
               (users s' ! k = users s ! k \<or>
                users s' ! k = apply_update now un ph pr (users s ! k)) \<and>
               email (users s' ! k) = email (users s ! k) \<and>
               password (users s' ! k) = password (users s ! k) \<and>
               uid (users s' ! k) = uid (users s ! k) \<and>
               createdAt (users s' ! k) = createdAt (users s ! k)"
      if k: "k < length (users s)" for k
    proof -
      have o: "uid (users s ! k) \<noteq> i \<longrightarrow> users s' ! k = users s ! k"
        using k by (simp add: eq c'_def nth_update_first_other)
      from nth_update_first[OF assms k, of "apply_update now un ph pr"]
      have "users s' ! k = users s ! k \<or>
            (users s ! k = u \<and> users s' ! k = apply_update now un ph pr u)"
        by (auto simp: eq c'_def u'_def)
      then show ?thesis using o apply_update_frame[of now un ph pr u] by auto
    qed
    show ?thesis
      unfolding Let_def s'_def[symmetric]
      using len row by (simp add: eq apply_update_def)
  qed
  from cases same changed show ?thesis by blast
qed

theorem update_user_frame_witness:
  "find (\<lambda>v. uid v = 1) (users example_app) = Some example_user \<and>
   update_user 2000 example_app (Some 1) (Some '' Ann B '') None (Some ''baker'') =
     (example_app\<lparr>users := [example_user\<lparr>username := ''ann b'', profession := ''baker'',
                                          updatedAt := 2000\<rparr>]\<rparr>,
      JsonUser 200 ''User updated successfully''
        [(''_id'', BObjectId 1), (''username'', BString ''ann b''), (''email'', BString ''ann@x.com''),
         (''phone'', BString ''5550100200''), (''profession'', BString ''baker''),
         (''createdAt'', BDate 1000), (''updatedAt'', BDate 2000), (''__v'', BInt32 0)]) \<and>
   email (users (fst (update_user 2000 example_app (Some 1) (Some '' Ann B '') None
                        (Some ''baker''))) ! 0) = ''ann@x.com'' \<and>
   password (users (fst (update_user 2000 example_app (Some 1) (Some '' Ann B '') None
                           (Some ''baker''))) ! 0) = example_hash ''secret''"
proof -
  have h: "find (\<lambda>v. uid v = 1) (users example_app) = Some example_user" by code_simp
  have r: "update_user 2000 example_app (Some 1) (Some '' Ann B '') None (Some ''baker'') =
     (example_app\<lparr>users := [example_user\<lparr>username := ''ann b'', profession := ''baker'',
                                          updatedAt := 2000\<rparr>]\<rparr>,
      JsonUser 200 ''User updated successfully''
        [(''_id'', BObjectId 1), (''username'', BString ''ann b''), (''email'', BString ''ann@x.com''),
         (''phone'', BString ''5550100200''), (''profession'', BString ''baker''),
         (''createdAt'', BDate 1000), (''updatedAt'', BDate 2000), (''__v'', BInt32 0)])"
    by code_simp
  have l: "0 < length (users example_app)" by (simp add: example_app_def)
  have e: "email (users example_app ! 0) = ''ann@x.com''"
    by (simp add: example_app_def example_user_def)
  have p: "password (users example_app ! 0) = example_hash ''secret''"
    by (simp add: example_app_def example_user_def)
  from update_user_frame[OF h, where now = 2000 and un = "Some '' Ann B ''" and ph = None
      and pr = "Some ''baker''"] l
  have "email (users (fst (update_user 2000 example_app (Some 1) (Some '' Ann B '') None
                        (Some ''baker''))) ! 0) = email (users example_app ! 0) \<and>
        password (users (fst (update_user 2000 example_app (Some 1) (Some '' Ann B '') None
                        (Some ''baker''))) ! 0) = password (users example_app ! 0)"
    unfolding Let_def by blast
  with h r e p show ?thesis by simp
qed

end
